theory Spec2Isabelle
  imports Complex_Main "HOL-Library.AList" "HOL-Library.Mapping" "HOL-Library.AList_Mapping"
begin

section \<open>The hierarchical routing engine of \<open>2pathmap.py\<close>\<close>

text \<open>
  The development embeds the routing core of \<^verbatim>\<open>src/2pathmap.py\<close>: the physical path
  cache and the abstract-graph rebuild of \<^verbatim>\<open>MapEngine\<close>, and the mission state machine of
  \<^verbatim>\<open>AV\<close>. Python objects become records that are passed in and returned; a \<^verbatim>\<open>dict\<close>
  is a \<open>mapping\<close>; \<^verbatim>\<open>None\<close> results and caught exceptions are \<open>option\<close> values; exceptions that
  escape a method are \<open>Inl\<close> results. Python floats (screen coordinates, timers, the wall
  clock) are idealised as reals. Rendering-only attributes (\<^verbatim>\<open>cam\<close>, \<^verbatim>\<open>sprite\<close>,
  \<^verbatim>\<open>bots\<close>, \<^verbatim>\<open>cached_edges\<close>) are left out.

  The shortest-path routines come from the networkx library, which is not part of the
  repository. They are taken as a parameter (a record of functions), so that every general
  statement below holds whatever paths the library returns; concrete evaluations use the
  Dijkstra search defined in the section on the reference instance.
\<close>

subsection \<open>Data\<close>

type_synonym node = int

type_synonym edge_key = "node \<times> node"

type_synonym coord = "real \<times> real"

type_synonym colour = "nat \<times> nat \<times> nat"

text \<open>
  \<^verbatim>\<open>edge_density\<close>, a dictionary from sorted endpoint pairs to counts. The rebuild
  compares two such dictionaries with \<^verbatim>\<open>==\<close>, which is the equality of this type.
\<close>

type_synonym density = "(edge_key, int) mapping"

text \<open>
  \<^verbatim>\<open>nx.Graph\<close> as the code uses it for \<^verbatim>\<open>G_abs\<close>: an insertion-ordered adjacency
  dictionary of dictionaries, each edge carrying its \<^verbatim>\<open>weight\<close>.
\<close>

type_synonym nxGraph = "(node \<times> (node \<times> int) list) list"

datatype py_error = IndexError | KeyError | TypeError | ZeroDivisionError

datatype av_state = IDLE | MOVING | WAITING | FINISHED

text \<open>\<^verbatim>\<open>edge_cost + rem_cost\<close>, where \<^verbatim>\<open>rem_cost\<close> may be \<^verbatim>\<open>float('inf')\<close>.\<close>

datatype total = Fin int | Inf

fun total_less :: "total \<Rightarrow> total \<Rightarrow> bool" where
  "total_less (Fin a) (Fin b) = (a < b)"
| "total_less (Fin a) Inf = True"
| "total_less Inf t = False"

fun total_add :: "int \<Rightarrow> total \<Rightarrow> total" where
  "total_add c (Fin r) = Fin (c + r)"
| "total_add c Inf = Inf"

text \<open>
  The networkx calls of the file, exceptions as \<open>None\<close>:
  \<^item> \<open>road_shortest_path G u v\<close> is \<^verbatim>\<open>nx.shortest_path(G_proj, u, v, weight='length')\<close>;
  \<^item> \<open>road_shortest_path_cost G dens u v\<close> is the same query with \<^verbatim>\<open>weight='curr_cost'\<close>,
    after the loop that annotates every edge with \<^verbatim>\<open>length * (1 + t**3)\<close> for the density
    \<^verbatim>\<open>t\<close> of its sorted endpoint pair;
  \<^item> \<open>abs_shortest_path G s t\<close> is \<^verbatim>\<open>nx.shortest_path(G_abs, s, t, weight='weight')\<close>;
  \<^item> \<open>abs_shortest_path_length G s t\<close> is \<^verbatim>\<open>nx.shortest_path_length(G_abs, s, t, weight='weight')\<close>.
\<close>

record 'g networkx =
  road_shortest_path :: "'g \<Rightarrow> node \<Rightarrow> node \<Rightarrow> node list option"
  road_shortest_path_cost :: "'g \<Rightarrow> density \<Rightarrow> node \<Rightarrow> node \<Rightarrow> node list option"
  abs_shortest_path :: "nxGraph \<Rightarrow> node \<Rightarrow> node \<Rightarrow> node list option"
  abs_shortest_path_length :: "nxGraph \<Rightarrow> node \<Rightarrow> node \<Rightarrow> int option"

text \<open>\<^verbatim>\<open>class AbstractGraph\<close>: fixed after \<^verbatim>\<open>generate_abstraction\<close>.\<close>

record AbstractGraph =
  abstract_nodes :: "node list"
  node_mapping :: "(node, string) mapping"
  connections :: "(node \<times> node) list"

text \<open>
  \<^verbatim>\<open>class MapEngine\<close>. \<open>graph_sys\<close> stands for \<^verbatim>\<open>self.layout.graph_sys\<close>, which
  \<^verbatim>\<open>run_sim\<close> sets once.
\<close>

record 'g MapEngine =
  G_proj :: 'g
  nodes :: "(node, coord) mapping"
  edge_density :: density
  blocked_edges :: "(node \<times> node \<times> nat) list"
  phys_path_cache :: "(edge_key, node list) mapping"
  G_abs_cached :: "nxGraph option"
  last_edge_density_snapshot :: density
  graph_sys :: AbstractGraph

subsection \<open>\<^verbatim>\<open>MapEngine\<close>: path cache, invalidation, abstract-graph rebuild\<close>

text \<open>\<^verbatim>\<open>tuple(sorted((u, v)))\<close>.\<close>

definition sorted_pair :: "node \<Rightarrow> node \<Rightarrow> edge_key" where
  "sorted_pair u v = (if v < u then (v, u) else (u, v))"

text \<open>
  \<^verbatim>\<open>get_phys_path\<close>: a cache hit returns the stored list; a miss asks networkx for the
  path from \<open>u\<close> to \<open>v\<close>, stores it under the sorted key and returns it; an exception of
  the library gives \<^verbatim>\<open>None\<close> and stores nothing.
\<close>

definition get_phys_path ::
  "'g networkx \<Rightarrow> node \<Rightarrow> node \<Rightarrow> 'g MapEngine \<Rightarrow> node list option \<times> 'g MapEngine" where
  "get_phys_path nx u v m =
     (let key = sorted_pair u v in
      case Mapping.lookup (phys_path_cache m) key of
        Some cached \<Rightarrow> (Some cached, m)
      | None \<Rightarrow>
          (case road_shortest_path nx (G_proj m) u v of
             Some path \<Rightarrow> (Some path, m\<lparr>phys_path_cache := Mapping.update key path (phys_path_cache m)\<rparr>)
           | None \<Rightarrow> (None, m)))"

definition invalidate_phys_cache :: "'g MapEngine \<Rightarrow> 'g MapEngine" where
  "invalidate_phys_cache m = m\<lparr>phys_path_cache := Mapping.empty, G_abs_cached := None\<rparr>"

text \<open>\<^verbatim>\<open>self.edge_density.get(key, 0)\<close>.\<close>

definition density_get :: "density \<Rightarrow> edge_key \<Rightarrow> int" where
  "density_get dens key = (case Mapping.lookup dens key of None \<Rightarrow> 0 | Some c \<Rightarrow> c)"

text \<open>The inner loop of the rebuild: the densities of the consecutive pairs of the path, summed.\<close>

fun traffic_along :: "density \<Rightarrow> node list \<Rightarrow> int" where
  "traffic_along dens (a # b # rest) =
     density_get dens (sorted_pair a b) + traffic_along dens (b # rest)"
| "traffic_along dens rest = 0"

text \<open>\<^verbatim>\<open>cost = len(phys_path) * (1 + (traffic ** 3))\<close>.\<close>

definition path_cost :: "density \<Rightarrow> node list \<Rightarrow> int" where
  "path_cost dens phys_path = int (length phys_path) * (1 + traffic_along dens phys_path ^ 3)"

text \<open>
  \<^verbatim>\<open>G.add_edge(u, v, weight=cost)\<close> of \<^verbatim>\<open>nx.Graph\<close>: both endpoints become nodes if
  they are not yet (appended to the node order), then \<open>v\<close> is entered in the adjacency of
  \<open>u\<close> and \<open>u\<close> in that of \<open>v\<close>; an existing entry keeps its place and takes the new weight.
\<close>

definition add_node :: "node \<Rightarrow> nxGraph \<Rightarrow> nxGraph" where
  "add_node n G = (if n \<in> fst ` set G then G else G @ [(n, [])])"

definition add_edge :: "node \<Rightarrow> node \<Rightarrow> int \<Rightarrow> nxGraph \<Rightarrow> nxGraph" where
  "add_edge u v cost G =
     AList.map_entry v (AList.update u cost)
       (AList.map_entry u (AList.update v cost) (add_node v (add_node u G)))"

text \<open>\<^verbatim>\<open>n in G.nodes\<close>, for an attribute that may still be \<^verbatim>\<open>None\<close>.\<close>

fun has_node :: "nxGraph \<Rightarrow> node option \<Rightarrow> bool" where
  "has_node G None = False"
| "has_node G (Some n) = (n \<in> fst ` set G)"

text \<open>\<^verbatim>\<open>G[u][v]['weight']\<close>, \<open>None\<close> where the lookup would raise.\<close>

definition edge_weight :: "nxGraph \<Rightarrow> node \<Rightarrow> node \<Rightarrow> int option" where
  "edge_weight G u v = (case map_of G u of None \<Rightarrow> None | Some adj \<Rightarrow> map_of adj v)"

text \<open>
  The loop of \<^verbatim>\<open>build_abstract_graph\<close> over \<^verbatim>\<open>graph_sys.connections\<close>; each query may
  fill the path cache, so the engine is threaded through.
\<close>

fun build_loop ::
  "'g networkx \<Rightarrow> (node \<times> node) list \<Rightarrow> nxGraph \<Rightarrow> 'g MapEngine \<Rightarrow> nxGraph \<times> 'g MapEngine" where
  "build_loop nx [] G m = (G, m)"
| "build_loop nx ((u, v) # rest) G m =
     (case get_phys_path nx u v m of
        (None, m') \<Rightarrow> build_loop nx rest G m'
      | (Some phys_path, m') \<Rightarrow>
          if phys_path = [] then build_loop nx rest G m'
          else build_loop nx rest (add_edge u v (path_cost (edge_density m') phys_path) G) m')"

text \<open>
  \<^verbatim>\<open>build_abstract_graph(graph_sys, force)\<close>. The first branch returns the cached graph,
  which the guard has found not to be \<^verbatim>\<open>None\<close>; so the result is always a graph, and the
  callers' test \<^verbatim>\<open>G_abs is None\<close> never fires.
\<close>

definition build_abstract_graph ::
  "'g networkx \<Rightarrow> AbstractGraph \<Rightarrow> bool \<Rightarrow> 'g MapEngine \<Rightarrow> nxGraph \<times> 'g MapEngine" where
  "build_abstract_graph nx gs force m =
     (case (if \<not> force \<and> last_edge_density_snapshot m = edge_density m
            then G_abs_cached m else None) of
        Some cached \<Rightarrow> (cached, m)
      | None \<Rightarrow>
          (let (G_abs, m') = build_loop nx (connections gs) [] m
           in (G_abs, m'\<lparr>G_abs_cached := Some G_abs,
                         last_edge_density_snapshot := edge_density m'\<rparr>)))"

text \<open>
  \<^verbatim>\<open>MapEngine.update\<close> recounts the densities from empty on every tick: one for each bot
  that has a target after its move. The bots are given as their \<^verbatim>\<open>(curr, target)\<close> pairs.
\<close>

fun count_density :: "(node \<times> node option) list \<Rightarrow> density \<Rightarrow> density" where
  "count_density [] dens = dens"
| "count_density ((b_curr, None) # bots) dens = count_density bots dens"
| "count_density ((b_curr, Some b_target) # bots) dens =
     count_density bots
       (Mapping.update (sorted_pair b_curr b_target)
          (density_get dens (sorted_pair b_curr b_target) + 1) dens)"

text \<open>
  \<^verbatim>\<open>block_at\<close> after its search for the edge nearest to the click (\<^verbatim>\<open>best_e\<close>, a
  computation on screen coordinates): the edge is toggled in \<^verbatim>\<open>blocked_edges\<close> and the
  caches are dropped.
\<close>

definition block_at :: "(node \<times> node \<times> nat) option \<Rightarrow> 'g MapEngine \<Rightarrow> 'g MapEngine" where
  "block_at best_e m =
     (case best_e of
        None \<Rightarrow> m
      | Some e \<Rightarrow>
          invalidate_phys_cache
            (m\<lparr>blocked_edges :=
                 (if e \<in> set (blocked_edges m) then remove1 e (blocked_edges m)
                  else blocked_edges m @ [e])\<rparr>))"

subsection \<open>\<^verbatim>\<open>AV\<close>: the mission\<close>

text \<open>
  \<^verbatim>\<open>class AV\<close>. \<open>map_eng\<close> is \<^verbatim>\<open>self.map\<close>: the methods of the vehicle call the engine
  and so change its caches. \<^verbatim>\<open>state\<close> only ever holds one of four string literals.
\<close>

record 'g AV =
  map_eng :: "'g MapEngine"
  pos :: coord
  active :: bool
  current_node :: "node option"
  next_node_target :: "node option"
  final_dest :: "node option"
  projected_path :: "node list"
  path_coords :: "coord list"
  coord_idx :: nat
  angle :: real
  state :: av_state
  wait_timer :: real
  alert :: string
  recalc_interval :: real
  last_recalc_t :: real
  events :: "(string \<times> colour) list"

text \<open>\<^verbatim>\<open>graph_sys.node_mapping.get(n, '?')\<close>; the attribute \<open>n\<close> may be \<^verbatim>\<open>None\<close>.\<close>

definition label_of :: "AbstractGraph \<Rightarrow> node option \<Rightarrow> string" where
  "label_of gs n =
     (case n of None \<Rightarrow> ''?''
      | Some k \<Rightarrow> (case Mapping.lookup (node_mapping gs) k of None \<Rightarrow> ''?'' | Some lbl \<Rightarrow> lbl))"

text \<open>\<^verbatim>\<open>sep.join(parts)\<close>.\<close>

fun join :: "string \<Rightarrow> string list \<Rightarrow> string" where
  "join sep [] = []"
| "join sep [x] = x"
| "join sep (x # y # rest) = x @ sep @ join sep (y # rest)"

text \<open>\<^verbatim>\<open>str\<close> of an integer, and \<^verbatim>\<open>int\<close> of a float (truncation towards zero).\<close>

function str_nat :: "nat \<Rightarrow> string" where
  "str_nat n =
     (if n < 10 then [char_of (48 + n)] else str_nat (n div 10) @ [char_of (48 + n mod 10)])"
  by pat_completeness auto
termination
  by (relation "measure id") auto

definition str_int :: "int \<Rightarrow> string" where
  "str_int i = (if i < 0 then CHR ''-'' # str_nat (nat (- i)) else str_nat (nat i))"

definition py_int :: "real \<Rightarrow> int" where
  "py_int r = (if 0 \<le> r then \<lfloor>r\<rfloor> else \<lceil>r\<rceil>)"

text \<open>
  \<^verbatim>\<open>G_abs.neighbors(n)\<close> with the weights \<^verbatim>\<open>G_abs[n][nbr]['weight']\<close>, in adjacency
  order. Both callers have just checked that \<open>n\<close> is a node of the graph, so the library
  does not raise.
\<close>

definition neighbors :: "nxGraph \<Rightarrow> node \<Rightarrow> (node \<times> int) list" where
  "neighbors G n = (case map_of G n of None \<Rightarrow> [] | Some adj \<Rightarrow> adj)"

text \<open>
  The lookahead loop, the same in \<^verbatim>\<open>calculate_mission_and_go\<close> and in
  \<^verbatim>\<open>check_dynamic_reroute\<close>: \<open>best\<close> holds \<^verbatim>\<open>(best_total, best_neighbor)\<close>, which are
  \<^verbatim>\<open>None\<close> together. A failing length query counts as \<^verbatim>\<open>float('inf')\<close>.
\<close>

fun lookahead ::
  "'g networkx \<Rightarrow> nxGraph \<Rightarrow> node \<Rightarrow> (node \<times> int) list \<Rightarrow> (total \<times> node) option
     \<Rightarrow> (total \<times> node) option" where
  "lookahead nx G_abs fin [] best = best"
| "lookahead nx G_abs fin ((nbr, edge_cost) # rest) best =
     (let rem_cost = (case abs_shortest_path_length nx G_abs nbr fin of
                        None \<Rightarrow> Inf | Some l \<Rightarrow> Fin l);
          tot = total_add edge_cost rem_cost
      in lookahead nx G_abs fin rest
           (case best of
              None \<Rightarrow> Some (tot, nbr)
            | Some (best_total, best_neighbor) \<Rightarrow>
                if total_less tot best_total then Some (tot, nbr) else best))"

text \<open>
  Lines 649 to 665 of \<^verbatim>\<open>calculate_mission_and_go\<close>: the committed hop, the projected
  path and the \<^verbatim>\<open>switched\<close> flag, for a base path \<open>raw_proj\<close> of at least two nodes.
\<close>

definition pick_hop ::
  "'g networkx \<Rightarrow> nxGraph \<Rightarrow> node \<Rightarrow> node \<Rightarrow> node list \<Rightarrow> (total \<times> node) option
     \<Rightarrow> 'g MapEngine \<Rightarrow> (node \<times> node list \<times> bool) \<times> 'g MapEngine" where
  "pick_hop nx G_abs cur fin raw_proj best m =
     (let chosen_next = raw_proj ! 1 in
      case best of
        None \<Rightarrow> ((chosen_next, raw_proj, False), m)
      | Some (best_total, best_neighbor) \<Rightarrow>
          if best_neighbor \<noteq> chosen_next then
            (case get_phys_path nx cur best_neighbor m of
               (None, m') \<Rightarrow> ((chosen_next, raw_proj, False), m')
             | (Some phys_nodes, m') \<Rightarrow>
                 if phys_nodes = [] then ((chosen_next, raw_proj, False), m')
                 else (case abs_shortest_path nx G_abs best_neighbor fin of
                         None \<Rightarrow> ((chosen_next, raw_proj, False), m')
                       | Some tail \<Rightarrow> ((best_neighbor, cur # tail, True), m')))
          else ((chosen_next, raw_proj, False), m))"

text \<open>
  Lines 674 to 687: the physical leg under the congestion costs. The library failing, or a
  path node without coordinates, ends in the \<^verbatim>\<open>except\<close> branch.
\<close>

definition plan_leg :: "'g networkx \<Rightarrow> node \<Rightarrow> node \<Rightarrow> 'g AV \<Rightarrow> 'g AV" where
  "plan_leg nx cur nxt a =
     (let m = map_eng a in
      case (case road_shortest_path_cost nx (G_proj m) (edge_density m) cur nxt of
              None \<Rightarrow> None
            | Some phys_nodes \<Rightarrow> those (map (Mapping.lookup (nodes m)) phys_nodes)) of
        None \<Rightarrow> a\<lparr>alert := ''Road Blocked'', active := False\<rparr>
      | Some coords \<Rightarrow>
          a\<lparr>path_coords := coords, coord_idx := 0,
            alert := ''Routing to '' @ label_of (graph_sys m) (Some nxt) @ '' | '' @ alert a,
            state := MOVING\<rparr>)"

definition no_route :: "'g AV \<Rightarrow> 'g AV" where
  "no_route a = a\<lparr>alert := ''No Route!'', active := False\<rparr>"

definition arrive :: "'g AV \<Rightarrow> 'g AV" where
  "arrive a =
     a\<lparr>state := FINISHED, alert := ''Arrived'', active := False,
       events := events a @ [(''DESTINATION REACHED!'', (50, 255, 50))]\<rparr>"

text \<open>
  \<^verbatim>\<open>calculate_mission_and_go\<close>. Nothing between lines 638 and 670 can raise (the
  neighbours are those of a node of the graph, the cache query catches its own exceptions),
  so the \<^verbatim>\<open>"Routing Error"\<close> handler has no branch here. When \<^verbatim>\<open>current_node\<close> or
  \<^verbatim>\<open>final_dest\<close> is \<^verbatim>\<open>None\<close> the membership test already fails.
\<close>

definition calculate_mission_and_go :: "'g networkx \<Rightarrow> 'g AV \<Rightarrow> 'g AV" where
  "calculate_mission_and_go nx a =
     (let gs = graph_sys (map_eng a);
          absent = (\<lambda>G. \<not> has_node G (current_node a) \<or> \<not> has_node G (final_dest a));
          (G0, m0) = build_abstract_graph nx gs False (map_eng a);
          (G_abs, m1) = (if absent G0 then build_abstract_graph nx gs True m0 else (G0, m0));
          a1 = a\<lparr>map_eng := m1\<rparr>
      in if absent G_abs then no_route a1
         else
           (case (current_node a, final_dest a) of
              (Some cur, Some fin) \<Rightarrow>
                (case abs_shortest_path nx G_abs cur fin of
                   None \<Rightarrow> no_route a1
                 | Some raw_proj \<Rightarrow>
                     if length raw_proj < 2 then arrive a1
                     else
                       (let best = lookahead nx G_abs fin (neighbors G_abs cur) None;
                            ((chosen_next, proj, switched), m2) =
                               pick_hop nx G_abs cur fin raw_proj best m1;
                            labels = map (\<lambda>n. label_of gs (Some n)) proj;
                            a2 = a1\<lparr>map_eng := m2, projected_path := proj,
                                    next_node_target := Some chosen_next,
                                    alert := ''Route: '' @ join '' > '' (take 6 labels)
                                             @ (if switched then '' (rerouted locally)'' else [])\<rparr>
                        in plan_leg nx cur chosen_next a2))
            | _ \<Rightarrow> no_route a1))"

text \<open>
  \<^verbatim>\<open>start\<close>. A first waypoint without coordinates raises \<^verbatim>\<open>KeyError\<close> out of the method.
\<close>

definition start :: "'g networkx \<Rightarrow> node list \<Rightarrow> 'g AV \<Rightarrow> py_error + 'g AV" where
  "start nx user_waypoints a =
     (if length user_waypoints < 2 then Inr a
      else
        (case Mapping.lookup (nodes (map_eng a)) (hd user_waypoints) of
           None \<Rightarrow> Inl KeyError
         | Some xy \<Rightarrow>
             Inr (calculate_mission_and_go nx
                    (a\<lparr>current_node := Some (hd user_waypoints),
                       final_dest := Some (last user_waypoints),
                       pos := xy, active := True\<rparr>))))"

text \<open>
  \<^verbatim>\<open>check_dynamic_reroute\<close>, with the state it leaves behind also when it raises (the
  caller swallows the exception). With \<^verbatim>\<open>final_dest\<close> still \<^verbatim>\<open>None\<close> the library
  returns dictionaries and \<^verbatim>\<open>edge_cost + rem_cost\<close> raises \<^verbatim>\<open>TypeError\<close>. The second
  \<^verbatim>\<open>nx.shortest_path\<close> call (line 714) repeats the first on the same graph, so the
  projected path is \<open>raw_proj\<close>.
\<close>

definition check_dynamic_reroute :: "'g networkx \<Rightarrow> 'g AV \<Rightarrow> (py_error + bool) \<times> 'g AV" where
  "check_dynamic_reroute nx a =
     (let gs = graph_sys (map_eng a);
          (G_abs, m1) = build_abstract_graph nx gs False (map_eng a);
          a1 = a\<lparr>map_eng := m1\<rparr>
      in if \<not> has_node G_abs (current_node a) then (Inr False, a1)
         else
           (case (current_node a, final_dest a) of
              (Some cur, Some fin) \<Rightarrow>
                (case abs_shortest_path nx G_abs cur fin of
                   None \<Rightarrow> (Inr False, a1)
                 | Some raw_proj \<Rightarrow>
                     (let best = lookahead nx G_abs fin (neighbors G_abs cur) None in
                      if length raw_proj < 2 then (Inl IndexError, a1)
                      else
                        (let chosen_next = raw_proj ! 1 in
                         case best of
                           None \<Rightarrow> (Inr False, a1)
                         | Some (best_total, best_neighbor) \<Rightarrow>
                             if best_neighbor \<noteq> chosen_next then
                               (case get_phys_path nx cur best_neighbor m1 of
                                  (None, m2) \<Rightarrow> (Inr False, a1\<lparr>map_eng := m2\<rparr>)
                                | (Some phys_nodes, m2) \<Rightarrow>
                                    if phys_nodes = [] then (Inr False, a1\<lparr>map_eng := m2\<rparr>)
                                    else
                                      (case those (map (Mapping.lookup (nodes m2)) phys_nodes) of
                                         None \<Rightarrow> (Inl KeyError, a1\<lparr>map_eng := m2\<rparr>)
                                       | Some coords \<Rightarrow>
                                           (Inr True,
                                            a1\<lparr>map_eng := m2, path_coords := coords,
                                               coord_idx := 0,
                                               next_node_target := Some best_neighbor,
                                               projected_path := raw_proj,
                                               alert := ''Rerouted -> ''
                                                 @ label_of gs (Some best_neighbor)
                                                 @ '' (mid-leg)''\<rparr>)))
                             else (Inr False, a1))))
            | _ \<Rightarrow> (Inl TypeError, a1)))"

text \<open>
  The periodic check of a \<^verbatim>\<open>MOVING\<close> tick (lines 731 to 737); \<open>now\<close> is \<^verbatim>\<open>time.time()\<close>.
\<close>

definition periodic_check :: "'g networkx \<Rightarrow> real \<Rightarrow> 'g AV \<Rightarrow> 'g AV" where
  "periodic_check nx now a =
     (if now - last_recalc_t a > recalc_interval a
      then snd (check_dynamic_reroute nx (a\<lparr>last_recalc_t := now\<rparr>))
      else a)"

text \<open>The end of the current leg (lines 739 to 754).\<close>

definition reach_node :: "'g AV \<Rightarrow> 'g AV" where
  "reach_node a =
     (let a1 = a\<lparr>current_node := next_node_target a\<rparr> in
      if current_node a1 = final_dest a1 then arrive a1
      else
        a1\<lparr>events := events a1
             @ [(''Reached Node '' @ label_of (graph_sys (map_eng a1)) (current_node a1),
                 (255, 255, 0))],
           state := WAITING, wait_timer := 1\<rparr>)"

text \<open>
  The motion step (lines 755 to 766), for a cursor below the last index:
  \<^verbatim>\<open>math.hypot\<close>, \<^verbatim>\<open>math.atan2\<close>, \<^verbatim>\<open>math.degrees\<close> and the float remainder over the reals.
\<close>

definition hypot :: "real \<Rightarrow> real \<Rightarrow> real" where
  "hypot x y = sqrt (x\<^sup>2 + y\<^sup>2)"

definition atan2 :: "real \<Rightarrow> real \<Rightarrow> real" where
  "atan2 y x =
     (if 0 < x then arctan (y / x)
      else if x < 0 \<and> 0 \<le> y then arctan (y / x) + pi
      else if x < 0 then arctan (y / x) - pi
      else if 0 < y then pi / 2
      else if y < 0 then - pi / 2
      else 0)"

definition py_mod :: "real \<Rightarrow> real \<Rightarrow> real" where
  "py_mod a b = a - b * of_int \<lfloor>a / b\<rfloor>"

definition advance :: "real \<Rightarrow> 'g AV \<Rightarrow> py_error + 'g AV" where
  "advance speed a =
     (let target = path_coords a ! (coord_idx a + 1);
          dx = fst target - fst (pos a);
          dy = snd target - snd (pos a);
          dist = hypot dx dy;
          current_speed = speed * 2
      in if dist \<le> current_speed then Inr (a\<lparr>pos := target, coord_idx := coord_idx a + 1\<rparr>)
         else if dist = 0 then Inl ZeroDivisionError
         else
           (let target_angle = - (atan2 dy dx * 180 / pi);
                diff = py_mod (target_angle - angle a + 180) 360 - 180
            in Inr (a\<lparr>pos := (fst (pos a) + (dx / dist) * current_speed,
                               snd (pos a) + (dy / dist) * current_speed),
                       angle := angle a + diff * 0.2\<rparr>)))"

text \<open>
  \<^verbatim>\<open>AV.update(speed, dt)\<close>; \<open>now\<close> is the value \<^verbatim>\<open>time.time()\<close> returns at its second line.
  In the \<^verbatim>\<open>WAITING\<close> branch \<^verbatim>\<open>node_mapping[self.current_node]\<close> raises \<^verbatim>\<open>KeyError\<close> for a
  node without label.
\<close>

definition av_update :: "'g networkx \<Rightarrow> real \<Rightarrow> int \<Rightarrow> real \<Rightarrow> 'g AV \<Rightarrow> py_error + 'g AV" where
  "av_update nx speed dt now a =
     (if \<not> active a then Inr a
      else if state a = WAITING then
        (let a1 = a\<lparr>wait_timer := wait_timer a - real_of_int dt / 1000\<rparr> in
         case (case current_node a1 of
                 None \<Rightarrow> None
               | Some cur \<Rightarrow> Mapping.lookup (node_mapping (graph_sys (map_eng a1))) cur) of
           None \<Rightarrow> Inl KeyError
         | Some lbl \<Rightarrow>
             (let a2 = a1\<lparr>alert := ''Scanning at '' @ lbl @ ''... ''
                                    @ str_int (py_int (wait_timer a1))\<rparr>
              in Inr (if wait_timer a2 \<le> 0 then calculate_mission_and_go nx a2 else a2)))
      else if state a = MOVING then
        (let a1 = periodic_check nx now a in
         if int (length (path_coords a1)) - 1 \<le> int (coord_idx a1) then Inr (reach_node a1)
         else advance speed a1)
      else Inr a)"

subsection \<open>A reference instance of the library: Dijkstra's search\<close>

text \<open>
  A one-directional Dijkstra search after \<^verbatim>\<open>_dijkstra_multisource\<close> of networkx, which
  answers \<^verbatim>\<open>nx.shortest_path_length\<close>. For \<^verbatim>\<open>nx.shortest_path\<close> with both endpoints
  networkx runs the bidirectional variant, which finds a path of the same length and may
  choose differently among routes of equal length; on the networks evaluated below the two
  agree. The search keeps a fringe of \<^verbatim>\<open>(distance, counter, node)\<close> entries popped in
  increasing order, \<^verbatim>\<open>dist\<close> for the settled nodes, \<^verbatim>\<open>seen\<close> for the best distance pushed
  so far, and \<^verbatim>\<open>paths\<close>; a node is pushed again only for a strictly smaller distance, and
  the search stops when the target is settled. Weights are taken to be non-negative. Every
  round pops one entry and only an adjacency entry of a newly settled node pushes one, so
  one round more than there are adjacency entries is enough; the loop is written by
  recursion on that bound.
\<close>

type_synonym fringe = "(int \<times> nat \<times> node) list"

fun least :: "int \<times> nat \<times> node \<Rightarrow> fringe \<Rightarrow> int \<times> nat \<times> node" where
  "least b [] = b"
| "least b (x # xs) =
     least (if fst x < fst b \<or> (fst x = fst b \<and> fst (snd x) < fst (snd b)) then x else b) xs"

fun relax ::
  "(node \<rightharpoonup> int) \<Rightarrow> int \<Rightarrow> node list \<Rightarrow> (node \<times> int) list
     \<Rightarrow> fringe \<times> (node \<rightharpoonup> int) \<times> (node \<rightharpoonup> node list) \<times> nat
     \<Rightarrow> fringe \<times> (node \<rightharpoonup> int) \<times> (node \<rightharpoonup> node list) \<times> nat" where
  "relax settled d path_v [] st = st"
| "relax settled d path_v ((u, cost) # rest) (fr, seen, paths, c) =
     (if settled u \<noteq> None then relax settled d path_v rest (fr, seen, paths, c)
      else if (case seen u of None \<Rightarrow> True | Some su \<Rightarrow> d + cost < su)
      then relax settled d path_v rest
             (fr @ [(d + cost, c, u)], seen(u \<mapsto> d + cost), paths(u \<mapsto> path_v @ [u]), Suc c)
      else relax settled d path_v rest (fr, seen, paths, c))"

fun dijkstra_loop ::
  "nat \<Rightarrow> nxGraph \<Rightarrow> node \<Rightarrow> (node \<rightharpoonup> int)
     \<Rightarrow> fringe \<times> (node \<rightharpoonup> int) \<times> (node \<rightharpoonup> node list) \<times> nat
     \<Rightarrow> (node \<rightharpoonup> int) \<times> (node \<rightharpoonup> node list)" where
  "dijkstra_loop 0 G target settled (fr, seen, paths, c) = (settled, paths)"
| "dijkstra_loop (Suc fuel) G target settled (fr, seen, paths, c) =
     (case fr of
        [] \<Rightarrow> (settled, paths)
      | x # xs \<Rightarrow>
          (let (d, k, v) = least x xs;
               fr' = remove1 (d, k, v) fr
           in if settled v \<noteq> None then dijkstra_loop fuel G target settled (fr', seen, paths, c)
              else if v = target then (settled(v \<mapsto> d), paths)
              else dijkstra_loop fuel G target (settled(v \<mapsto> d))
                     (relax (settled(v \<mapsto> d)) d (case paths v of None \<Rightarrow> [] | Some pv \<Rightarrow> pv)
                        (neighbors G v) (fr', seen, paths, c))))"

definition dijkstra :: "nxGraph \<Rightarrow> node \<Rightarrow> node \<Rightarrow> (int \<times> node list) option" where
  "dijkstra G s t =
     (if s \<notin> fst ` set G \<or> t \<notin> fst ` set G then None
      else
        (let (settled, paths) =
               dijkstra_loop (Suc (length (concat (map snd G)))) G t Map.empty
                 ([(0, 0, s)], [s \<mapsto> 0], [s \<mapsto> [s]], 1)
         in case (settled t, paths t) of
              (Some d, Some p) \<Rightarrow> Some (d, p)
            | _ \<Rightarrow> None))"

text \<open>
  The road network of the instance is a directed adjacency with integer lengths. The
  \<^verbatim>\<open>curr_cost\<close> annotation multiplies each length by \<^verbatim>\<open>1 + t**3\<close>.
\<close>

definition annotate_curr_cost :: "density \<Rightarrow> nxGraph \<Rightarrow> nxGraph" where
  "annotate_curr_cost dens G =
     map (\<lambda>(u, adj).
            (u, map (\<lambda>(v, len). (v, len * (1 + density_get dens (sorted_pair u v) ^ 3))) adj))
         G"

definition dijkstra_nx :: "nxGraph networkx" where
  "dijkstra_nx =
     \<lparr>road_shortest_path = (\<lambda>G u v. map_option snd (dijkstra G u v)),
      road_shortest_path_cost =
        (\<lambda>G dens u v. map_option snd (dijkstra (annotate_curr_cost dens G) u v)),
      abs_shortest_path = (\<lambda>G s t. map_option snd (dijkstra G s t)),
      abs_shortest_path_length = (\<lambda>G s t. map_option fst (dijkstra G s t))\<rparr>"

subsection \<open>A small town\<close>

text \<open>
  Six intersections. The abstract nodes are 1, 2 and 3 (labels A, B, C). Two long streets
  1 - 2 and 2 - 3 of length 10, a chain 1 - 4 - 5 - 3 of three short streets of length 1,
  and a spur 4 - 6; every street runs both ways. By length the shortest physical paths
  are \<open>[1, 2]\<close>, \<open>[1, 4, 5, 3]\<close> and \<open>[2, 3]\<close>.
\<close>

definition town_roads :: nxGraph where
  "town_roads =
     [(1, [(2, 10), (4, 1)]),
      (2, [(1, 10), (3, 10)]),
      (3, [(2, 10), (5, 1)]),
      (4, [(1, 1), (5, 1), (6, 1)]),
      (5, [(4, 1), (3, 1)]),
      (6, [(4, 1)])]"

definition town_graph_sys :: AbstractGraph where
  "town_graph_sys =
     \<lparr>abstract_nodes = [1, 2, 3],
      node_mapping = Mapping.of_alist [(1, ''A''), (2, ''B''), (3, ''C'')],
      connections = [(1, 2), (1, 3), (2, 3)]\<rparr>"

definition town_map :: "nxGraph MapEngine" where
  "town_map =
     \<lparr>G_proj = town_roads,
      nodes = Mapping.of_alist
                [(1, (0, 0)), (2, (300, 0)), (3, (600, 0)),
                 (4, (200, 300)), (5, (400, 300)), (6, (200, 600))],
      edge_density = Mapping.empty,
      blocked_edges = [],
      phys_path_cache = Mapping.empty,
      G_abs_cached = None,
      last_edge_density_snapshot = Mapping.empty,
      graph_sys = town_graph_sys\<rparr>"

text \<open>The vehicle as \<^verbatim>\<open>AV.__init__\<close> leaves it.\<close>

definition town_av :: "nxGraph AV" where
  "town_av =
     \<lparr>map_eng = town_map, pos = (0, 0), active = False, current_node = None,
      next_node_target = None, final_dest = None, projected_path = [], path_coords = [],
      coord_idx = 0, angle = 0, state = IDLE, wait_timer = 0, alert = ''Idle'',
      recalc_interval = 0.5, last_recalc_t = 0, events = []\<rparr>"

subsection \<open>Notions used in the statements\<close>

text \<open>
  Every stored path is one the library returned for a query whose endpoints sort to the key
  it is stored under.
\<close>

definition cache_genuine :: "'g networkx \<Rightarrow> 'g MapEngine \<Rightarrow> bool" where
  "cache_genuine nx m \<longleftrightarrow>
     (\<forall>key path. Mapping.lookup (phys_path_cache m) key = Some path \<longrightarrow>
        (\<exists>u v. sorted_pair u v = key \<and> road_shortest_path nx (G_proj m) u v = Some path))"

text \<open>
  Successive calls of \<^verbatim>\<open>av.update(speed, dt)\<close> from the simulation loop, each with its own
  speed, frame time and clock reading; an escaping exception ends the run.
\<close>

fun run_updates :: "'g networkx \<Rightarrow> (real \<times> int \<times> real) list \<Rightarrow> 'g AV \<Rightarrow> py_error + 'g AV" where
  "run_updates nx [] a = Inr a"
| "run_updates nx ((speed, dt, now) # ticks) a =
     (case av_update nx speed dt now a of
        Inl e \<Rightarrow> Inl e
      | Inr a' \<Rightarrow> run_updates nx ticks a')"

text \<open>
  The weights of a graph are those of the cached paths under the current densities.
\<close>

definition weights_from_cache :: "nxGraph \<Rightarrow> 'g MapEngine \<Rightarrow> bool" where
  "weights_from_cache G m \<longleftrightarrow>
     (\<forall>u v w. edge_weight G u v = Some w \<longrightarrow>
        (\<exists>p. Mapping.lookup (phys_path_cache m) (sorted_pair u v) = Some p \<and> p \<noteq> [] \<and>
             w = path_cost (edge_density m) p))"

text \<open>
  The town with \<open>c\<close> vehicles counted on the street between 5 and 3, the last street of the
  path \<open>[1, 4, 5, 3]\<close>, whose key is the pair in ascending order.
\<close>

definition town_jam :: "int \<Rightarrow> nxGraph MapEngine" where
  "town_jam c = town_map\<lparr>edge_density := Mapping.update (3, 5) c Mapping.empty\<rparr>"

text \<open>The engine of the town after its first build, and one vehicle heading from 4 to 6.\<close>

definition town_built :: "nxGraph MapEngine" where
  "town_built = snd (build_abstract_graph dijkstra_nx town_graph_sys False town_map)"

definition spur_density :: density where
  "spur_density = count_density [(4, Some 6)] Mapping.empty"

text \<open>
  The vehicle as \<^verbatim>\<open>start\<close> hands it to the planner for the waypoints 6 and 3, and the
  vehicle that \<^verbatim>\<open>start\<close> has sent from \<open>src\<close> to \<open>dst\<close>, placed at the end of its first
  leg (cursor at the last coordinate, position there).
\<close>

definition town_lost :: "nxGraph AV" where
  "town_lost = town_av\<lparr>current_node := Some 6, final_dest := Some 3, pos := (200, 600), active := True\<rparr>"


text \<open>
  An edge lies on a node sequence when two consecutive nodes are its endpoints, in either
  order; a node sequence is a route of a road network when each node is followed by one of
  its neighbours.
\<close>

fun on_path :: "node \<times> node \<times> nat \<Rightarrow> node list \<Rightarrow> bool" where
  "on_path (u, v, k) (a # b # rest) =
     ((u = a \<and> v = b) \<or> (u = b \<and> v = a) \<or> on_path (u, v, k) (b # rest))"
| "on_path e rest = False"

fun is_route :: "nxGraph \<Rightarrow> node list \<Rightarrow> bool" where
  "is_route G (a # b # rest) = (b \<in> fst ` set (neighbors G a) \<and> is_route G (b # rest))"
| "is_route G rest = True"

text \<open>
  The abstract graph of the town without traffic, and the vehicle after
  \<^verbatim>\<open>start\<close> with the waypoints 1 and 3.
\<close>

definition town_G :: nxGraph where
  "town_G = [(1, [(2, 2), (3, 4)]), (2, [(1, 2), (3, 2)]), (3, [(1, 4), (2, 2)])]"

definition town_departed :: "nxGraph AV" where
  "town_departed =
     town_av\<lparr>map_eng := town_built
                \<lparr>phys_path_cache :=
                   Mapping.update (2, 3) [2, 3]
                     (Mapping.update (1, 3) [1, 4, 5, 3]
                        (Mapping.update (1, 2) [1, 2] Mapping.empty))\<rparr>,
             active := True, current_node := Some 1, next_node_target := Some 2,
             final_dest := Some 3, projected_path := [1, 2, 3],
             path_coords := [(0, 0), (300, 0)], state := MOVING,
             alert := ''Routing to B | Route: A > B > C (rerouted locally)''\<rparr>"

text \<open>
  The density summed along a path, stated without the loop of the rebuild: for every
  position of the path but the last, the count stored for the street from that node to the
  next, under the pair of the two nodes in ascending order, and 0 where none is stored.
\<close>

definition summed_density :: "density \<Rightarrow> node list \<Rightarrow> int" where
  "summed_density dens p =
     sum_list
       (map (\<lambda>i. case Mapping.lookup dens (min (p ! i) (p ! Suc i), max (p ! i) (p ! Suc i)) of
                    None \<Rightarrow> 0
                  | Some c \<Rightarrow> c)
            [0..<length p - 1])"

text \<open>An undirected graph has the same weight in both directions of every pair.\<close>

definition symmetric_graph :: "nxGraph \<Rightarrow> bool" where
  "symmetric_graph G \<longleftrightarrow> (\<forall>a b. edge_weight G a b = edge_weight G b a)"

text \<open>A network of one one-way street, from 1 to 2, in the engine of the town.\<close>

definition oneway_roads :: nxGraph where
  "oneway_roads = [(1, [(2, 5)]), (2, [])]"

definition oneway_map :: "nxGraph MapEngine" where
  "oneway_map = town_map\<lparr>G_proj := oneway_roads\<rparr>"


section \<open>Properties\<close>

subsection \<open>The physical path cache\<close>

lemma sorted_pair_commute: "sorted_pair u v = sorted_pair v u"
  by (simp add: sorted_pair_def)

lemma get_phys_path_genuine:
  "cache_genuine nx m \<Longrightarrow> cache_genuine nx (snd (get_phys_path nx u v m))"
  unfolding cache_genuine_def get_phys_path_def Let_def
  by (auto simp: Mapping.lookup_update' split: option.splits if_splits)

lemma build_loop_genuine:
  "cache_genuine nx m \<Longrightarrow> cache_genuine nx (snd (build_loop nx cs G m))"
proof (induction cs arbitrary: G m)
  case Nil
  then show ?case by simp
next
  case (Cons c cs)
  obtain u v where c: "c = (u, v)" by (cases c)
  obtain r m1 where q: "get_phys_path nx u v m = (r, m1)" by (cases "get_phys_path nx u v m")
  from get_phys_path_genuine [OF Cons.prems, of u v] q have "cache_genuine nx m1" by simp
  from Cons.IH [OF this] c q show ?case
    by (cases r) simp_all
qed

lemma build_genuine:
  assumes "cache_genuine nx m"
  shows "cache_genuine nx (snd (build_abstract_graph nx gs force m))"
proof -
  have "cache_genuine nx (m'\<lparr>G_abs_cached := g, last_edge_density_snapshot := d\<rparr>)"
    if "cache_genuine nx m'" for m' :: "'a MapEngine" and g d
    using that by (simp add: cache_genuine_def)
  with build_loop_genuine [OF assms, of "connections gs" "[]"] assms show ?thesis
    by (auto simp: build_abstract_graph_def split: option.splits prod.splits)
qed

text \<open>
  Claim C5, as stated, fails for a pair joined by a one-way street. With nothing cached the
  query from 2 to 1 finds no route and stores nothing, while the query from 1 to 2 returns
  \<open>[1, 2]\<close>: the two directions diverge. Once that path is stored, the query from 2 to 1
  returns it as well, and so changes its answer.
\<close>

theorem one_way_queries_counterexample:
  "get_phys_path dijkstra_nx 2 1 oneway_map = (None, oneway_map) \<and>
   fst (get_phys_path dijkstra_nx 1 2 oneway_map) = Some [1, 2] \<and>
   fst (get_phys_path dijkstra_nx 2 1 (snd (get_phys_path dijkstra_nx 1 2 oneway_map)))
     = Some [1, 2]"
  by code_simp

text \<open>
  Claim C5, amended. The cache key is the sorted endpoint pair, so both directions of a
  query share one entry. With an entry stored for the pair, \<open>get_phys_path u v\<close> and
  \<open>get_phys_path v u\<close> return that same stored sequence, in the direction it was stored,
  and leave the engine as it is; in particular, once a query for \<open>(u, v)\<close> has returned a
  path, the queries for \<open>(v, u)\<close> and \<open>(u, v)\<close> both return it. With no entry stored,
  each query is answered by the library for its own direction.
\<close>

theorem cache_symmetry:
  "sorted_pair u v = sorted_pair v u \<and>
   (Mapping.lookup (phys_path_cache m) (sorted_pair u v) = Some p \<longrightarrow>
      get_phys_path nx u v m = (Some p, m) \<and> get_phys_path nx v u m = (Some p, m)) \<and>
   (get_phys_path nx u v m = (Some p, m') \<longrightarrow>
      get_phys_path nx v u m' = (Some p, m') \<and> get_phys_path nx u v m' = (Some p, m')) \<and>
   (Mapping.lookup (phys_path_cache m) (sorted_pair u v) = None \<longrightarrow>
      fst (get_phys_path nx u v m) = road_shortest_path nx (G_proj m) u v \<and>
      fst (get_phys_path nx v u m) = road_shortest_path nx (G_proj m) v u)"
proof (intro conjI impI)
  show "sorted_pair u v = sorted_pair v u"
    by (rule sorted_pair_commute)
next
  assume hit: "Mapping.lookup (phys_path_cache m) (sorted_pair u v) = Some p"
  then show "get_phys_path nx u v m = (Some p, m)"
    by (simp add: get_phys_path_def)
  from hit have "Mapping.lookup (phys_path_cache m) (sorted_pair v u) = Some p"
    by (simp add: sorted_pair_commute [of v u])
  then show "get_phys_path nx v u m = (Some p, m)"
    by (simp add: get_phys_path_def)
next
  assume q: "get_phys_path nx u v m = (Some p, m')"
  then have stored: "Mapping.lookup (phys_path_cache m') (sorted_pair u v) = Some p"
    by (auto simp: get_phys_path_def Let_def Mapping.lookup_update split: option.splits)
  then show "get_phys_path nx u v m' = (Some p, m')"
    by (simp add: get_phys_path_def)
  from stored have "Mapping.lookup (phys_path_cache m') (sorted_pair v u) = Some p"
    by (simp add: sorted_pair_commute [of v u])
  then show "get_phys_path nx v u m' = (Some p, m')"
    by (simp add: get_phys_path_def)
next
  assume miss: "Mapping.lookup (phys_path_cache m) (sorted_pair u v) = None"
  then show "fst (get_phys_path nx u v m) = road_shortest_path nx (G_proj m) u v"
    by (simp add: get_phys_path_def split: option.splits)
  from miss have "Mapping.lookup (phys_path_cache m) (sorted_pair v u) = None"
    by (simp add: sorted_pair_commute [of v u])
  then show "fst (get_phys_path nx v u m) = road_shortest_path nx (G_proj m) v u"
    by (simp add: get_phys_path_def split: option.splits)
qed

text \<open>
  In the town, the query from 1 to 3 stores \<open>[1, 4, 5, 3]\<close> under the key \<open>(1, 3)\<close>, and the
  query from 3 to 1 then returns that list as it is stored. On the one-way street both
  queries, with nothing stored, are the library's answers for their directions.
\<close>

theorem cache_symmetry_witness:
  "get_phys_path dijkstra_nx 1 3 town_map =
     (Some [1, 4, 5, 3],
      town_map\<lparr>phys_path_cache := Mapping.update (1, 3) [1, 4, 5, 3] Mapping.empty\<rparr>) \<and>
   get_phys_path dijkstra_nx 3 1
     (town_map\<lparr>phys_path_cache := Mapping.update (1, 3) [1, 4, 5, 3] Mapping.empty\<rparr>) =
     (Some [1, 4, 5, 3],
      town_map\<lparr>phys_path_cache := Mapping.update (1, 3) [1, 4, 5, 3] Mapping.empty\<rparr>) \<and>
   fst (get_phys_path dijkstra_nx 2 1 oneway_map) = road_shortest_path dijkstra_nx oneway_roads 2 1 \<and>
   fst (get_phys_path dijkstra_nx 1 2 oneway_map) = road_shortest_path dijkstra_nx oneway_roads 1 2"
proof -
  let ?m' = "town_map\<lparr>phys_path_cache := Mapping.update (1, 3) [1, 4, 5, 3] Mapping.empty\<rparr>"
  have q: "get_phys_path dijkstra_nx 1 3 town_map = (Some [1, 4, 5, 3], ?m')"
    by code_simp
  have miss: "Mapping.lookup (phys_path_cache oneway_map) (sorted_pair 2 1) = None"
    and proj: "G_proj oneway_map = oneway_roads"
    by code_simp+
  from cache_symmetry [of 1 3 town_map "[1, 4, 5, 3]" dijkstra_nx ?m'] q
  have "get_phys_path dijkstra_nx 3 1 ?m' = (Some [1, 4, 5, 3], ?m')" by blast
  moreover from cache_symmetry [of 2 1 oneway_map "[]" dijkstra_nx oneway_map] miss
  have "fst (get_phys_path dijkstra_nx 2 1 oneway_map)
          = road_shortest_path dijkstra_nx (G_proj oneway_map) 2 1"
    and "fst (get_phys_path dijkstra_nx 1 2 oneway_map)
          = road_shortest_path dijkstra_nx (G_proj oneway_map) 1 2"
    by blast+
  then have "fst (get_phys_path dijkstra_nx 2 1 oneway_map)
          = road_shortest_path dijkstra_nx oneway_roads 2 1"
    and "fst (get_phys_path dijkstra_nx 1 2 oneway_map)
          = road_shortest_path dijkstra_nx oneway_roads 1 2"
    unfolding proj by blast+
  ultimately show ?thesis using q by blast
qed

text \<open>
  Claim C10. A query that finds no route returns \<^verbatim>\<open>None\<close> and leaves the engine, and so
  the cache, exactly as it was. Hence the cache only ever holds paths the library returned:
  the property is kept by every query and by every build of the abstract graph, and it
  holds after an invalidation.
\<close>

theorem failed_query_not_memoized:
  "(fst (get_phys_path nx u v m) = None \<longrightarrow> snd (get_phys_path nx u v m) = m) \<and>
   (cache_genuine nx m \<longrightarrow> cache_genuine nx (snd (get_phys_path nx u v m))) \<and>
   (cache_genuine nx m \<longrightarrow> cache_genuine nx (snd (build_abstract_graph nx gs force m))) \<and>
   cache_genuine nx (invalidate_phys_cache m)"
proof (intro conjI impI)
  assume "cache_genuine nx m"
  then show "cache_genuine nx (snd (build_abstract_graph nx gs force m))"
    by (rule build_genuine)
next
  assume "fst (get_phys_path nx u v m) = None"
  then show "snd (get_phys_path nx u v m) = m"
    by (auto simp: get_phys_path_def Let_def split: option.splits)
next
  assume "cache_genuine nx m"
  then show "cache_genuine nx (snd (get_phys_path nx u v m))"
    by (rule get_phys_path_genuine)
next
  show "cache_genuine nx (invalidate_phys_cache m)"
    by (simp add: cache_genuine_def invalidate_phys_cache_def)
qed

text \<open>
  The town has no intersection 7: the query from 1 to 7 fails and changes nothing. The
  empty cache of the town is genuine, and stays so after the query from 1 to 3.
\<close>

theorem failed_query_not_memoized_witness:
  "fst (get_phys_path dijkstra_nx 1 7 town_map) = None \<and>
   snd (get_phys_path dijkstra_nx 1 7 town_map) = town_map \<and>
   cache_genuine dijkstra_nx town_map \<and>
   cache_genuine dijkstra_nx (snd (get_phys_path dijkstra_nx 1 3 town_map))"
proof -
  have miss: "fst (get_phys_path dijkstra_nx 1 7 town_map) = None"
    by code_simp
  have gen: "cache_genuine dijkstra_nx town_map"
    by (simp add: cache_genuine_def town_map_def)
  from failed_query_not_memoized [of dijkstra_nx 1 7 town_map] miss
  have "snd (get_phys_path dijkstra_nx 1 7 town_map) = town_map" by blast
  moreover from failed_query_not_memoized [of dijkstra_nx 1 3 town_map] gen
  have "cache_genuine dijkstra_nx (snd (get_phys_path dijkstra_nx 1 3 town_map))" by blast
  ultimately show ?thesis using miss gen by blast
qed

subsection \<open>The mission: guards\<close>

text \<open>
  Claim C8. \<^verbatim>\<open>start\<close> with fewer than two waypoints returns at once: the vehicle that
  comes back is the vehicle that went in, with its state, current node, destination,
  position, routes, active flag and alert (and its engine) untouched, and nothing is raised.
\<close>

theorem start_guard: "length user_waypoints < 2 \<Longrightarrow> start nx user_waypoints a = Inr a"
  by (simp add: start_def)

theorem start_guard_witness:
  "start dijkstra_nx [] town_av = Inr town_av \<and> start dijkstra_nx [2] town_av = Inr town_av"
  using start_guard [of "[]" dijkstra_nx town_av] start_guard [of "[2]" dijkstra_nx town_av]
  by simp

text \<open>
  Claim C9. With the active flag off, \<^verbatim>\<open>update\<close> returns the vehicle unchanged, whatever
  the speed, the frame time and the clock; so does any sequence of such calls. Only
  \<^verbatim>\<open>start\<close> sets the flag again.
\<close>

theorem inactive_update_noop:
  "\<not> active a \<Longrightarrow>
     av_update nx speed dt now a = Inr a \<and> run_updates nx ticks a = Inr a"
proof -
  assume off: "\<not> active a"
  have one: "av_update nx s d t a = Inr a" for s d t
    using off by (simp add: av_update_def)
  have "run_updates nx ticks a = Inr a"
    by (induction ticks) (auto simp: one)
  with one show ?thesis by simp
qed

theorem inactive_update_noop_witness:
  "\<not> active town_av \<and> av_update dijkstra_nx 4 16 1000 town_av = Inr town_av \<and>
   run_updates dijkstra_nx [(4, 16, 1000), (4, 17, 1000.5)] town_av = Inr town_av"
proof -
  have off: "\<not> active town_av"
    by (simp add: town_av_def)
  from off
    inactive_update_noop [OF off, of dijkstra_nx 4 16 1000 "[(4, 16, 1000), (4, 17, 1000.5)]"]
  show ?thesis by blast
qed

subsection \<open>The abstract-graph rebuild\<close>

lemma map_of_add_node:
  "map_of (add_node n G) x = (if x = n \<and> map_of G n = None then Some [] else map_of G x)"
proof -
  have mem: "n \<in> fst ` set G \<longleftrightarrow> map_of G n \<noteq> None"
    by (simp add: map_of_eq_None_iff)
  show ?thesis
    unfolding add_node_def mem by (auto simp: map_add_def split: option.splits)
qed

lemma edge_weight_add_edge:
  "edge_weight (add_edge u v c G) a b =
     (if (a = u \<and> b = v) \<or> (a = v \<and> b = u) then Some c else edge_weight G a b)"
  by (auto simp: edge_weight_def add_edge_def AList.map_of_map_entry AList.update_conv'
        map_of_add_node split: option.splits)

lemma edge_weight_empty: "edge_weight [] a b = None"
  by (simp add: edge_weight_def)

lemma get_phys_path_cases:
  assumes "get_phys_path nx u v m = (r, m')"
  shows "
     (r = None \<and> m' = m) \<or>
     (\<exists>p. r = Some p \<and> m' = m \<and> Mapping.lookup (phys_path_cache m) (sorted_pair u v) = Some p) \<or>
     (\<exists>p. r = Some p \<and> Mapping.lookup (phys_path_cache m) (sorted_pair u v) = None \<and>
          m' = m\<lparr>phys_path_cache := Mapping.update (sorted_pair u v) p (phys_path_cache m)\<rparr>)"
proof (cases "Mapping.lookup (phys_path_cache m) (sorted_pair u v)")
  case (Some cached)
  with assms show ?thesis
    by (auto simp: get_phys_path_def)
next
  case None
  show ?thesis
  proof (cases "road_shortest_path nx (G_proj m) u v")
    case miss: None
    with None assms show ?thesis
      by (auto simp: get_phys_path_def)
  next
    case (Some path)
    with None assms have "r = Some path"
      and "m' = m\<lparr>phys_path_cache :=
                    Mapping.update (sorted_pair u v) path (phys_path_cache m)\<rparr>"
      by (simp_all add: get_phys_path_def)
    with None show ?thesis by blast
  qed
qed

lemma weights_from_cache_add:
  assumes "weights_from_cache G m"
    and "Mapping.lookup (phys_path_cache m) (sorted_pair u v) = Some p" and "p \<noteq> []"
  shows "weights_from_cache (add_edge u v (path_cost (edge_density m) p) G) m"
  using assms unfolding weights_from_cache_def
  by (auto simp: edge_weight_add_edge sorted_pair_commute [of v u])

lemma weights_from_cache_store:
  assumes "weights_from_cache G m"
    and "Mapping.lookup (phys_path_cache m) k = None"
  shows "weights_from_cache G (m\<lparr>phys_path_cache := Mapping.update k p (phys_path_cache m)\<rparr>)"
  unfolding weights_from_cache_def
proof (intro allI impI)
  fix u v w
  assume "edge_weight G u v = Some w"
  with assms(1) obtain q where
    q: "Mapping.lookup (phys_path_cache m) (sorted_pair u v) = Some q" "q \<noteq> []"
       "w = path_cost (edge_density m) q"
    unfolding weights_from_cache_def by blast
  from q(1) assms(2) have "sorted_pair u v \<noteq> k" by auto
  with q show "\<exists>p'. Mapping.lookup
           (phys_path_cache (m\<lparr>phys_path_cache := Mapping.update k p (phys_path_cache m)\<rparr>))
           (sorted_pair u v) = Some p' \<and> p' \<noteq> [] \<and>
         w = path_cost
               (edge_density (m\<lparr>phys_path_cache := Mapping.update k p (phys_path_cache m)\<rparr>)) p'"
    by (auto simp: Mapping.lookup_update')
qed

lemma get_phys_path_keeps:
  assumes "get_phys_path nx u v m = (r, m')"
  shows "edge_density m' = edge_density m" and "G_proj m' = G_proj m"
    and "G_abs_cached m' = G_abs_cached m"
    and "last_edge_density_snapshot m' = last_edge_density_snapshot m"
    and "graph_sys m' = graph_sys m" and "nodes m' = nodes m"
    and "blocked_edges m' = blocked_edges m"
    and "Mapping.lookup (phys_path_cache m) k = Some q \<Longrightarrow>
           Mapping.lookup (phys_path_cache m') k = Some q"
    and "weights_from_cache G m \<Longrightarrow> weights_from_cache G m'"
    and "r = Some p \<Longrightarrow> Mapping.lookup (phys_path_cache m') (sorted_pair u v) = Some p"
  using get_phys_path_cases [OF assms]
  by (auto simp: Mapping.lookup_update' weights_from_cache_store)

lemma build_loop_weights:
  "weights_from_cache G m \<Longrightarrow> build_loop nx cs G m = (G', m') \<Longrightarrow>
     weights_from_cache G' m' \<and> edge_density m' = edge_density m"
proof (induction cs arbitrary: G m)
  case Nil
  then show ?case by simp
next
  case (Cons c cs)
  obtain u v where c: "c = (u, v)" by (cases c)
  obtain r m1 where q: "get_phys_path nx u v m = (r, m1)" by (cases "get_phys_path nx u v m")
  note keep = get_phys_path_keeps [OF q]
  have inv1: "weights_from_cache G m1"
    using Cons.prems(1) by (rule keep(9))
  show ?case
  proof (cases "r = None \<or> r = Some []")
    case True
    then have "build_loop nx cs G m1 = (G', m')"
      using Cons.prems(2) c q by auto
    from Cons.IH [OF inv1 this] keep(1) show ?thesis by simp
  next
    case False
    then obtain p where r: "r = Some p" and ne: "p \<noteq> []" by (cases r) auto
    have stored: "Mapping.lookup (phys_path_cache m1) (sorted_pair u v) = Some p"
      using r by (rule keep(10))
    have inv2: "weights_from_cache (add_edge u v (path_cost (edge_density m1) p) G) m1"
      using inv1 stored ne by (rule weights_from_cache_add)
    have "build_loop nx cs (add_edge u v (path_cost (edge_density m1) p) G) m1 = (G', m')"
      using Cons.prems(2) c q r ne by simp
    from Cons.IH [OF inv2 this] keep(1) show ?thesis by simp
  qed
qed

lemma cube_strict_mono:
  fixes a b :: int
  assumes "a < b"
  shows "a ^ 3 < b ^ 3"
proof -
  consider "0 \<le> a" | "a < 0" "0 \<le> b" | "b < 0" using assms by linarith
  then show ?thesis
  proof cases
    case 1
    with assms show ?thesis by (simp add: power_strict_mono)
  next
    case 2
    then have "a ^ 3 < 0" and "0 \<le> b ^ 3" by simp_all
    then show ?thesis by linarith
  next
    case 3
    with assms have "(- b) ^ 3 < (- a) ^ 3"
      by (intro power_strict_mono) simp_all
    then show ?thesis by simp
  qed
qed

lemma path_cost_strict_mono:
  assumes "p \<noteq> []" and "traffic_along d p < traffic_along d' p"
  shows "path_cost d p < path_cost d' p"
proof -
  have "0 < int (length p)" using assms(1) by simp
  moreover have "1 + traffic_along d p ^ 3 < 1 + traffic_along d' p ^ 3"
    using cube_strict_mono [OF assms(2)] by simp
  ultimately show ?thesis
    unfolding path_cost_def by (rule mult_strict_left_mono [rotated])
qed

lemma path_cost_eq_iff:
  assumes "p \<noteq> []"
  shows "path_cost d p = path_cost d' p \<longleftrightarrow> traffic_along d p = traffic_along d' p"
proof
  assume eq: "path_cost d p = path_cost d' p"
  show "traffic_along d p = traffic_along d' p"
  proof (cases "traffic_along d p" "traffic_along d' p" rule: linorder_cases)
    case less
    from path_cost_strict_mono [OF assms less] eq show ?thesis by simp
  next
    case greater
    from path_cost_strict_mono [OF assms greater] eq show ?thesis by simp
  qed
next
  assume "traffic_along d p = traffic_along d' p"
  then show "path_cost d p = path_cost d' p" by (simp add: path_cost_def)
qed

lemma sorted_pair_eqD:
  "sorted_pair a b = sorted_pair u v \<Longrightarrow> (a = u \<and> b = v) \<or> (a = v \<and> b = u)"
  by (auto simp: sorted_pair_def split: if_splits)

lemma build_loop_cache_mono:
  "build_loop nx cs G m = (G', m') \<Longrightarrow>
     Mapping.lookup (phys_path_cache m) k = Some q \<Longrightarrow>
     Mapping.lookup (phys_path_cache m') k = Some q"
proof (induction cs arbitrary: G m)
  case Nil
  then show ?case by simp
next
  case (Cons c cs)
  obtain u v where c: "c = (u, v)" by (cases c)
  obtain r m1 where q: "get_phys_path nx u v m = (r, m1)" by (cases "get_phys_path nx u v m")
  have kept: "Mapping.lookup (phys_path_cache m1) k = Some q"
    using get_phys_path_keeps(8) [OF q Cons.prems(2)] .
  from Cons.prems(1) c q obtain G1 where "build_loop nx cs G1 m1 = (G', m')"
    by (auto split: option.splits if_splits)
  from Cons.IH [OF this kept] show ?case .
qed

lemma build_loop_step:
  assumes "get_phys_path nx u v m = (r, m1)"
  shows "build_loop nx ((u, v) # cs) G m =
      (case r of
         None \<Rightarrow> build_loop nx cs G m1
       | Some ph \<Rightarrow>
           if ph = [] then build_loop nx cs G m1
           else build_loop nx cs (add_edge u v (path_cost (edge_density m1) ph) G) m1)"
  using assms by simp

lemma build_loop_keeps_edges:
  "build_loop nx cs G m = (G', m') \<Longrightarrow> edge_weight G a b \<noteq> None \<Longrightarrow>
     edge_weight G' a b \<noteq> None"
proof (induction cs arbitrary: G m)
  case Nil
  then show ?case by simp
next
  case (Cons c cs)
  obtain u v where c: "c = (u, v)" by (cases c)
  obtain r m1 where q: "get_phys_path nx u v m = (r, m1)" by (cases "get_phys_path nx u v m")
  note run = Cons.prems(1) [unfolded c build_loop_step [OF q]]
  show ?case
  proof (cases "r = None \<or> r = Some []")
    case True
    with run have "build_loop nx cs G m1 = (G', m')" by auto
    from Cons.IH [OF this Cons.prems(2)] show ?thesis .
  next
    case False
    then obtain p0 where r: "r = Some p0" "p0 \<noteq> []" by (cases r) auto
    let ?G1 = "add_edge u v (path_cost (edge_density m1) p0) G"
    from run r have rest: "build_loop nx cs ?G1 m1 = (G', m')" by simp
    have "edge_weight ?G1 a b \<noteq> None"
      using Cons.prems(2) by (simp add: edge_weight_add_edge)
    from Cons.IH [OF rest this] show ?thesis .
  qed
qed

lemma build_loop_new_entry:
  "build_loop nx cs G m = (G', m') \<Longrightarrow>
     Mapping.lookup (phys_path_cache m') k = Some p \<Longrightarrow> p \<noteq> [] \<Longrightarrow>
     Mapping.lookup (phys_path_cache m) k = None \<Longrightarrow>
     \<exists>u v. sorted_pair u v = k \<and> edge_weight G' u v \<noteq> None \<and> edge_weight G' v u \<noteq> None"
proof (induction cs arbitrary: G m)
  case Nil
  then show ?case by simp
next
  case (Cons c cs)
  obtain u v where c: "c = (u, v)" by (cases c)
  obtain r m1 where q: "get_phys_path nx u v m = (r, m1)" by (cases "get_phys_path nx u v m")
  note shape = get_phys_path_cases [OF q]
  note run = Cons.prems(1) [unfolded c build_loop_step [OF q]]
  show ?case
  proof (cases "r = None \<or> r = Some []")
    case True
    with run have rest: "build_loop nx cs G m1 = (G', m')" by auto
    show ?thesis
    proof (cases "Mapping.lookup (phys_path_cache m1) k")
      case None
      from Cons.IH [OF rest Cons.prems(2,3) None] show ?thesis .
    next
      case (Some q1)
      with Cons.prems(4) shape True have "q1 = []"
        by (auto simp: Mapping.lookup_update' split: if_splits)
      with Some build_loop_cache_mono [OF rest] Cons.prems(2,3) show ?thesis by fastforce
    qed
  next
    case False
    then obtain p0 where r: "r = Some p0" "p0 \<noteq> []" by (cases r) auto
    let ?G1 = "add_edge u v (path_cost (edge_density m1) p0) G"
    from run r have rest: "build_loop nx cs ?G1 m1 = (G', m')" by simp
    show ?thesis
    proof (cases "Mapping.lookup (phys_path_cache m1) k")
      case None
      from Cons.IH [OF rest Cons.prems(2,3) None] show ?thesis .
    next
      case (Some q1)
      with Cons.prems(4) shape r have k: "k = sorted_pair u v"
        by (auto simp: Mapping.lookup_update' split: if_splits)
      have "edge_weight ?G1 u v \<noteq> None" and "edge_weight ?G1 v u \<noteq> None"
        by (simp_all add: edge_weight_add_edge)
      then have "edge_weight G' u v \<noteq> None" and "edge_weight G' v u \<noteq> None"
        using build_loop_keeps_edges [OF rest] by blast+
      with k show ?thesis by blast
    qed
  qed
qed

lemma build_loop_cached_connection:
  "build_loop nx cs G m = (G', m') \<Longrightarrow> (x, y) \<in> set cs \<Longrightarrow>
     Mapping.lookup (phys_path_cache m) (sorted_pair x y) = Some p \<Longrightarrow> p \<noteq> [] \<Longrightarrow>
     edge_weight G' x y \<noteq> None"
proof (induction cs arbitrary: G m)
  case Nil
  then show ?case by simp
next
  case (Cons c cs)
  obtain u v where c: "c = (u, v)" by (cases c)
  obtain r m1 where q: "get_phys_path nx u v m = (r, m1)" by (cases "get_phys_path nx u v m")
  note shape = get_phys_path_cases [OF q]
  note run = Cons.prems(1) [unfolded c build_loop_step [OF q]]
  have hit: "Mapping.lookup (phys_path_cache m1) (sorted_pair x y) = Some p"
    using get_phys_path_keeps(8) [OF q Cons.prems(3)] .
  show ?case
  proof (cases "r = None \<or> r = Some []")
    case True
    with run have rest: "build_loop nx cs G m1 = (G', m')" by auto
    have "(x, y) \<noteq> (u, v)"
    proof
      assume "(x, y) = (u, v)"
      with Cons.prems(3) q have "r = Some p" by (simp add: get_phys_path_def)
      with True Cons.prems(4) show False by simp
    qed
    with Cons.prems(2) c have "(x, y) \<in> set cs" by auto
    from Cons.IH [OF rest this hit Cons.prems(4)] show ?thesis .
  next
    case False
    then obtain p0 where r: "r = Some p0" "p0 \<noteq> []" by (cases r) auto
    let ?G1 = "add_edge u v (path_cost (edge_density m1) p0) G"
    from run r have rest: "build_loop nx cs ?G1 m1 = (G', m')" by simp
    show ?thesis
    proof (cases "(x, y) = (u, v)")
      case True
      then have "edge_weight ?G1 x y \<noteq> None" by (simp add: edge_weight_add_edge)
      from build_loop_keeps_edges [OF rest this] show ?thesis .
    next
      case False
      with Cons.prems(2) c have "(x, y) \<in> set cs" by auto
      from Cons.IH [OF rest this hit Cons.prems(4)] show ?thesis .
    qed
  qed
qed

lemma build_loop_connection_edge:
  assumes run: "build_loop nx cs [] m = (G', m')"
    and conn: "(x, y) \<in> set cs"
    and hit: "Mapping.lookup (phys_path_cache m') (sorted_pair x y) = Some p" and ne: "p \<noteq> []"
  shows "edge_weight G' x y = Some (path_cost (edge_density m) p)"
proof -
  have present: "edge_weight G' x y \<noteq> None"
  proof (cases "Mapping.lookup (phys_path_cache m) (sorted_pair x y)")
    case None
    from build_loop_new_entry [OF run hit ne None] obtain u v where
      "sorted_pair u v = sorted_pair x y" "edge_weight G' u v \<noteq> None" "edge_weight G' v u \<noteq> None"
      by blast
    with sorted_pair_eqD [of u v x y] show ?thesis by auto
  next
    case (Some q0)
    with build_loop_cache_mono [OF run Some] hit have "q0 = p" by simp
    with Some build_loop_cached_connection [OF run conn _ ne] show ?thesis by simp
  qed
  then obtain w where w: "edge_weight G' x y = Some w" by auto
  have "weights_from_cache [] m"
    by (simp add: weights_from_cache_def edge_weight_empty)
  from build_loop_weights [OF this run]
  have inv: "weights_from_cache G' m'" and dens: "edge_density m' = edge_density m" by simp_all
  from inv w hit dens have "w = path_cost (edge_density m) p"
    unfolding weights_from_cache_def by fastforce
  with w show ?thesis by simp
qed

lemma build_cached:
  assumes "\<not> force" and "last_edge_density_snapshot m = edge_density m"
    and "G_abs_cached m = Some G"
  shows "build_abstract_graph nx gs force m = (G, m)"
  using assms by (simp add: build_abstract_graph_def)

lemma build_rebuilds:
  assumes "force \<or> G_abs_cached m = None \<or> last_edge_density_snapshot m \<noteq> edge_density m"
    and "build_abstract_graph nx gs force m = (G_abs, m')"
  obtains m0 where "build_loop nx (connections gs) [] m = (G_abs, m0)"
    and "m' = m0\<lparr>G_abs_cached := Some G_abs, last_edge_density_snapshot := edge_density m0\<rparr>"
proof -
  obtain G0 m0 where loop: "build_loop nx (connections gs) [] m = (G0, m0)"
    by (cases "build_loop nx (connections gs) [] m")
  have "(if \<not> force \<and> last_edge_density_snapshot m = edge_density m
         then G_abs_cached m else None) = None"
    using assms(1) by auto
  with assms(2) loop have "G_abs = G0"
    and "m' = m0\<lparr>G_abs_cached := Some G0, last_edge_density_snapshot := edge_density m0\<rparr>"
    by (auto simp: build_abstract_graph_def)
  with loop that show thesis by simp
qed

lemma build_then_cached:
  assumes "build_abstract_graph nx gs force m = (G_abs, m')"
  shows "G_abs_cached m' = Some G_abs"
    and "last_edge_density_snapshot m' = edge_density m'"
    and "edge_density m' = edge_density m"
proof -
  have "G_abs_cached m' = Some G_abs \<and> last_edge_density_snapshot m' = edge_density m'
      \<and> edge_density m' = edge_density m"
  proof (cases "force \<or> G_abs_cached m = None \<or> last_edge_density_snapshot m \<noteq> edge_density m")
    case True
    from build_rebuilds [OF True assms] obtain m0 where
      loop: "build_loop nx (connections gs) [] m = (G_abs, m0)"
      and m': "m' = m0\<lparr>G_abs_cached := Some G_abs, last_edge_density_snapshot := edge_density m0\<rparr>"
      by blast
    have "weights_from_cache [] m"
      by (simp add: weights_from_cache_def edge_weight_empty)
    from build_loop_weights [OF this loop] m' show ?thesis by simp
  next
    case False
    then obtain G where "G_abs_cached m = Some G" by auto
    with False assms build_cached [of force m G nx gs] show ?thesis by auto
  qed
  then show "G_abs_cached m' = Some G_abs"
    and "last_edge_density_snapshot m' = edge_density m'"
    and "edge_density m' = edge_density m" by simp_all
qed

lemma sorted_pair_min_max: "sorted_pair a b = (min a b, max a b)"
  by (simp add: sorted_pair_def min_def max_def)

lemma traffic_along_summed: "traffic_along dens p = summed_density dens p"
proof (induction dens p rule: traffic_along.induct)
  case (1 dens a b rest)
  have "[0..<length (a # b # rest) - 1] = 0 # map Suc [0..<length (b # rest) - 1]"
    by (simp add: upt_conv_Cons map_Suc_upt del: upt_Suc)
  then show ?case
    using 1 by (simp add: summed_density_def density_get_def sorted_pair_min_max comp_def
        del: upt_Suc)
qed (simp_all add: summed_density_def)

lemma path_cost_summed:
  "path_cost dens p = int (length p) * (1 + summed_density dens p ^ 3)"
  by (simp add: path_cost_def traffic_along_summed)

lemma symmetric_add_edge: "symmetric_graph G \<Longrightarrow> symmetric_graph (add_edge u v c G)"
  by (auto simp: symmetric_graph_def edge_weight_add_edge)

lemma build_loop_symmetric:
  "build_loop nx cs G m = (G', m') \<Longrightarrow> symmetric_graph G \<Longrightarrow> symmetric_graph G'"
proof (induction cs arbitrary: G m)
  case Nil
  then show ?case by simp
next
  case (Cons c cs)
  obtain u v where c: "c = (u, v)" by (cases c)
  obtain r m1 where q: "get_phys_path nx u v m = (r, m1)" by (cases "get_phys_path nx u v m")
  note run = Cons.prems(1) [unfolded c build_loop_step [OF q]]
  show ?case
  proof (cases "r = None \<or> r = Some []")
    case True
    with run have "build_loop nx cs G m1 = (G', m')" by auto
    from Cons.IH [OF this Cons.prems(2)] show ?thesis .
  next
    case False
    then obtain p0 where r: "r = Some p0" "p0 \<noteq> []" by (cases r) auto
    from run r have "build_loop nx cs (add_edge u v (path_cost (edge_density m1) p0) G) m1 = (G', m')"
      by simp
    from Cons.IH [OF this symmetric_add_edge [OF Cons.prems(2)]] show ?thesis .
  qed
qed

lemma build_loop_edge_origin:
  "build_loop nx cs G m = (G', m') \<Longrightarrow> edge_weight G' a b \<noteq> None \<Longrightarrow>
     edge_weight G a b \<noteq> None \<or> (a, b) \<in> set cs \<or> (b, a) \<in> set cs"
proof (induction cs arbitrary: G m)
  case Nil
  then show ?case by simp
next
  case (Cons c cs)
  obtain u v where c: "c = (u, v)" by (cases c)
  obtain r m1 where q: "get_phys_path nx u v m = (r, m1)" by (cases "get_phys_path nx u v m")
  note run = Cons.prems(1) [unfolded c build_loop_step [OF q]]
  show ?case
  proof (cases "r = None \<or> r = Some []")
    case True
    with run have "build_loop nx cs G m1 = (G', m')" by auto
    from Cons.IH [OF this Cons.prems(2)] show ?thesis by auto
  next
    case False
    then obtain p0 where r: "r = Some p0" "p0 \<noteq> []" by (cases r) auto
    let ?G1 = "add_edge u v (path_cost (edge_density m1) p0) G"
    from run r have "build_loop nx cs ?G1 m1 = (G', m')" by simp
    from Cons.IH [OF this Cons.prems(2)]
    have "edge_weight ?G1 a b \<noteq> None \<or> (a, b) \<in> set cs \<or> (b, a) \<in> set cs" .
    then show ?thesis
      using c by (auto simp: edge_weight_add_edge split: if_splits)
  qed
qed

lemma build_loop_saturates:
  "build_loop nx cs G m = (G', m') \<Longrightarrow> (x, y) \<in> set cs \<Longrightarrow>
     Mapping.lookup (phys_path_cache m') (sorted_pair x y) \<noteq> None
       \<or> road_shortest_path nx (G_proj m) x y = None"
proof (induction cs arbitrary: G m)
  case Nil
  then show ?case by simp
next
  case (Cons c cs)
  obtain u v where c: "c = (u, v)" by (cases c)
  obtain r m1 where q: "get_phys_path nx u v m = (r, m1)" by (cases "get_phys_path nx u v m")
  note run = Cons.prems(1) [unfolded c build_loop_step [OF q]]
  from run obtain G1 where rest: "build_loop nx cs G1 m1 = (G', m')"
    by (cases r) (auto split: if_splits)
  have proj: "G_proj m1 = G_proj m"
    using get_phys_path_keeps(2) [OF q] .
  show ?case
  proof (cases "(x, y) = (u, v)")
    case True
    show ?thesis
    proof (cases r)
      case None
      with q True show ?thesis
        by (auto simp: get_phys_path_def Let_def split: option.splits)
    next
      case (Some p)
      from get_phys_path_keeps(10) [OF q Some]
      have "Mapping.lookup (phys_path_cache m1) (sorted_pair u v) = Some p" .
      from build_loop_cache_mono [OF rest this] True show ?thesis by simp
    qed
  next
    case False
    with Cons.prems(2) c have "(x, y) \<in> set cs" by auto
    from Cons.IH [OF rest this] proj show ?thesis by simp
  qed
qed

lemma build_loop_saturated_idle:
  "(\<And>x y. (x, y) \<in> set cs \<Longrightarrow>
       Mapping.lookup (phys_path_cache m) (sorted_pair x y) \<noteq> None
         \<or> road_shortest_path nx (G_proj m) x y = None) \<Longrightarrow>
   snd (build_loop nx cs G m) = m"
proof (induction cs arbitrary: G)
  case Nil
  then show ?case by simp
next
  case (Cons c cs)
  obtain u v where c: "c = (u, v)" by (cases c)
  have "Mapping.lookup (phys_path_cache m) (sorted_pair u v) \<noteq> None
         \<or> road_shortest_path nx (G_proj m) u v = None"
    using Cons.prems [of u v] c by simp
  then have q: "snd (get_phys_path nx u v m) = m"
    by (auto simp: get_phys_path_def Let_def split: option.splits)
  have ih: "snd (build_loop nx cs G1 m) = m" for G1
    using Cons.IH [of G1] Cons.prems by simp
  obtain r where "get_phys_path nx u v m = (r, m)"
    using q by (cases "get_phys_path nx u v m") simp
  then show ?case
    using c ih by (cases r) simp_all
qed

lemma build_loop_proj:
  "build_loop nx cs G m = (G', m') \<Longrightarrow> G_proj m' = G_proj m"
proof (induction cs arbitrary: G m)
  case Nil
  then show ?case by simp
next
  case (Cons c cs)
  obtain u v where c: "c = (u, v)" by (cases c)
  obtain r m1 where q: "get_phys_path nx u v m = (r, m1)" by (cases "get_phys_path nx u v m")
  note run = Cons.prems(1) [unfolded c build_loop_step [OF q]]
  from run obtain G1 where rest: "build_loop nx cs G1 m1 = (G', m')"
    by (cases r) (auto split: if_splits)
  from Cons.IH [OF rest] get_phys_path_keeps(2) [OF q] show ?case by simp
qed

lemma symmetric_empty: "symmetric_graph []"
  by (simp add: symmetric_graph_def edge_weight_empty)

lemma weights_from_cache_empty: "weights_from_cache [] m"
  by (simp add: weights_from_cache_def edge_weight_empty)

lemma rebuild_twice:
  assumes loop1: "build_loop nx cs [] m = (G1, m0)"
    and m1: "m1 = m0\<lparr>G_abs_cached := g, last_edge_density_snapshot := s, edge_density := dens\<rparr>"
    and loop2: "build_loop nx cs [] m1 = (G2, m2)"
  shows "m2 = m1"
    and "edge_weight G2 a b = None \<longleftrightarrow> edge_weight G1 a b = None"
    and "edge_weight G1 a b = Some w1 \<Longrightarrow>
           \<exists>p. Mapping.lookup (phys_path_cache m0) (sorted_pair a b) = Some p \<and> p \<noteq> [] \<and>
               w1 = path_cost (edge_density m) p \<and>
               edge_weight G2 a b = Some (path_cost dens p)"
proof -
  have cache1: "phys_path_cache m1 = phys_path_cache m0" and proj1: "G_proj m1 = G_proj m0"
    and dens1: "edge_density m1 = dens"
    using m1 by simp_all
  have "snd (build_loop nx cs [] m1) = m1"
  proof (rule build_loop_saturated_idle)
    fix x y
    assume "(x, y) \<in> set cs"
    from build_loop_saturates [OF loop1 this] build_loop_proj [OF loop1]
    show "Mapping.lookup (phys_path_cache m1) (sorted_pair x y) \<noteq> None
         \<or> road_shortest_path nx (G_proj m1) x y = None"
      by (simp add: cache1 proj1)
  qed
  with loop2 show same: "m2 = m1" by simp
  from build_loop_weights [OF weights_from_cache_empty loop1]
  have inv1: "weights_from_cache G1 m0" and d1: "edge_density m0 = edge_density m" by simp_all
  from build_loop_weights [OF weights_from_cache_empty loop2]
  have inv2: "weights_from_cache G2 m2" by simp
  have sym1: "symmetric_graph G1" and sym2: "symmetric_graph G2"
    using build_loop_symmetric [OF loop1 symmetric_empty]
      build_loop_symmetric [OF loop2 symmetric_empty] by simp_all
  have cache2: "phys_path_cache m2 = phys_path_cache m0"
    using same cache1 by simp
  have forth: "\<exists>p. Mapping.lookup (phys_path_cache m0) (sorted_pair a b) = Some p \<and> p \<noteq> [] \<and>
               w = path_cost (edge_density m) p \<and>
               edge_weight G2 a b = Some (path_cost dens p)"
    if e: "edge_weight G1 a b = Some w" for w
  proof -
    from inv1 e d1 obtain p where
      p: "Mapping.lookup (phys_path_cache m0) (sorted_pair a b) = Some p" "p \<noteq> []"
         "w = path_cost (edge_density m) p"
      unfolding weights_from_cache_def by fastforce
    from build_loop_edge_origin [OF loop1, of a b] e
    consider "(a, b) \<in> set cs" | "(b, a) \<in> set cs"
      by (auto simp: edge_weight_empty)
    then have "edge_weight G2 a b = Some (path_cost dens p)"
    proof cases
      case 1
      from build_loop_connection_edge [OF loop2 1, of p] p(1,2) cache2 dens1
      show ?thesis by simp
    next
      case 2
      from build_loop_connection_edge [OF loop2 2, of p] p(1,2) cache2 dens1
      have "edge_weight G2 b a = Some (path_cost dens p)"
        by (simp add: sorted_pair_commute [of b a])
      with sym2 show ?thesis by (simp add: symmetric_graph_def)
    qed
    with p show ?thesis by blast
  qed
  have kept: "edge_weight G1 a b \<noteq> None" if e: "edge_weight G2 a b \<noteq> None"
  proof -
    from e obtain w where w: "edge_weight G2 a b = Some w" by auto
    with inv2 cache2 obtain p where
      p: "Mapping.lookup (phys_path_cache m0) (sorted_pair a b) = Some p" "p \<noteq> []"
      unfolding weights_from_cache_def by fastforce
    from build_loop_edge_origin [OF loop2, of a b] e
    consider "(a, b) \<in> set cs" | "(b, a) \<in> set cs"
      by (auto simp: edge_weight_empty)
    then show ?thesis
    proof cases
      case 1
      from build_loop_connection_edge [OF loop1 1, of p] p show ?thesis by simp
    next
      case 2
      from build_loop_connection_edge [OF loop1 2, of p] p
      have "edge_weight G1 b a \<noteq> None"
        by (simp add: sorted_pair_commute [of b a])
      with sym1 show ?thesis by (simp add: symmetric_graph_def)
    qed
  qed
  show "edge_weight G2 a b = None \<longleftrightarrow> edge_weight G1 a b = None"
  proof
    assume "edge_weight G2 a b = None"
    with forth show "edge_weight G1 a b = None"
      by (cases "edge_weight G1 a b") auto
  next
    assume "edge_weight G1 a b = None"
    with kept show "edge_weight G2 a b = None" by blast
  qed
  from forth show "edge_weight G1 a b = Some w1 \<Longrightarrow>
           \<exists>p. Mapping.lookup (phys_path_cache m0) (sorted_pair a b) = Some p \<and> p \<noteq> [] \<and>
               w1 = path_cost (edge_density m) p \<and>
               edge_weight G2 a b = Some (path_cost dens p)" .
qed

lemma summed_cost_strict_mono:
  assumes "p \<noteq> []" and "summed_density d p < summed_density d' p"
  shows "path_cost d p < path_cost d' p"
  using path_cost_strict_mono [OF assms(1), of d d'] assms(2)
  by (simp add: traffic_along_summed)

lemma summed_cost_eq_iff:
  assumes "p \<noteq> []"
  shows "path_cost d p = path_cost d' p \<longleftrightarrow> summed_density d p = summed_density d' p"
  using path_cost_eq_iff [OF assms, of d d'] by (simp add: traffic_along_summed)

text \<open>
  Claim C4. A rebuild (forced, or without a cached graph, or after a change of the density
  map) gives every edge of the new graph the weight \<open>n * (1 + d ^ 3)\<close>, where \<open>n\<close> is the
  node count of the physical path cached for its endpoints and \<open>d\<close> the density summed
  along that path. Every connection with a non-empty cached path is such an edge, and every
  connection has a cached path unless the library finds none for it. The cost the loop
  computes is this formula, and for a fixed non-empty path it grows strictly with the
  summed density; so the weights at sums 0, 1 and 2 are strictly increasing.
\<close>

theorem rebuild_weight_formula:
  assumes "force \<or> G_abs_cached m = None \<or> last_edge_density_snapshot m \<noteq> edge_density m"
    and "build_abstract_graph nx gs force m = (G_abs, m')"
  shows "(\<forall>u v w. edge_weight G_abs u v = Some w \<longrightarrow>
            (\<exists>p. Mapping.lookup (phys_path_cache m') (sorted_pair u v) = Some p \<and> p \<noteq> [] \<and>
                 w = int (length p) * (1 + summed_density (edge_density m) p ^ 3))) \<and>
         (\<forall>u v p. (u, v) \<in> set (connections gs) \<and>
              Mapping.lookup (phys_path_cache m') (sorted_pair u v) = Some p \<and> p \<noteq> [] \<longrightarrow>
              edge_weight G_abs u v =
                Some (int (length p) * (1 + summed_density (edge_density m) p ^ 3))) \<and>
         (\<forall>u v. (u, v) \<in> set (connections gs) \<longrightarrow>
              Mapping.lookup (phys_path_cache m') (sorted_pair u v) \<noteq> None
                \<or> road_shortest_path nx (G_proj m) u v = None) \<and>
         (\<forall>p d. path_cost d p = int (length p) * (1 + summed_density d p ^ 3)) \<and>
         (\<forall>p d d'. p \<noteq> [] \<and> summed_density d p < summed_density d' p \<longrightarrow>
              path_cost d p < path_cost d' p)"
proof -
  from build_rebuilds [OF assms] obtain m0 where
    loop: "build_loop nx (connections gs) [] m = (G_abs, m0)"
    and m': "m' = m0\<lparr>G_abs_cached := Some G_abs, last_edge_density_snapshot := edge_density m0\<rparr>"
    by blast
  have cache: "phys_path_cache m' = phys_path_cache m0"
    using m' by simp
  from build_loop_weights [OF weights_from_cache_empty loop]
  have inv: "weights_from_cache G_abs m0" and dens: "edge_density m0 = edge_density m"
    by simp_all
  have first: "\<forall>u v w. edge_weight G_abs u v = Some w \<longrightarrow>
            (\<exists>p. Mapping.lookup (phys_path_cache m') (sorted_pair u v) = Some p \<and> p \<noteq> [] \<and>
                 w = int (length p) * (1 + summed_density (edge_density m) p ^ 3))"
    using inv unfolding weights_from_cache_def cache dens path_cost_summed .
  have second: "\<forall>u v p. (u, v) \<in> set (connections gs) \<and>
              Mapping.lookup (phys_path_cache m') (sorted_pair u v) = Some p \<and> p \<noteq> [] \<longrightarrow>
              edge_weight G_abs u v =
                Some (int (length p) * (1 + summed_density (edge_density m) p ^ 3))"
    using build_loop_connection_edge [OF loop] unfolding cache path_cost_summed by blast
  have third: "\<forall>u v. (u, v) \<in> set (connections gs) \<longrightarrow>
              Mapping.lookup (phys_path_cache m') (sorted_pair u v) \<noteq> None
                \<or> road_shortest_path nx (G_proj m) u v = None"
    using build_loop_saturates [OF loop] unfolding cache by blast
  have fourth: "\<forall>p d. path_cost d p = int (length p) * (1 + summed_density d p ^ 3)"
    by (simp add: path_cost_summed)
  have fifth: "\<forall>p d d'. p \<noteq> [] \<and> summed_density d p < summed_density d' p \<longrightarrow>
              path_cost d p < path_cost d' p"
    using summed_cost_strict_mono by blast
  from first second third fourth fifth show ?thesis by blast
qed

text \<open>
  In the town with one vehicle on the street between 5 and 3, the edge from 1 to 3 runs
  over \<open>[1, 4, 5, 3]\<close> and weighs \<open>4 * (1 + 1 ^ 3)\<close>; with none, one and two vehicles there
  the cost of that path is 4, 8 and 36.
\<close>

lemma town_jam_build:
  "Mapping.lookup
     (phys_path_cache (snd (build_abstract_graph dijkstra_nx town_graph_sys False (town_jam 1))))
     (1, 3) = Some [1, 4, 5, 3]"
  "G_abs_cached (town_jam 1) = None"
  "summed_density (edge_density (town_jam 0)) [1, 4, 5, 3] = 0"
  "summed_density (edge_density (town_jam 1)) [1, 4, 5, 3] = 1"
  "summed_density (edge_density (town_jam 2)) [1, 4, 5, 3] = 2"
  by code_simp+

theorem rebuild_weight_formula_witness:
  "edge_weight (fst (build_abstract_graph dijkstra_nx town_graph_sys False (town_jam 1))) 1 3
     = Some (4 * (1 + 1 ^ 3)) \<and>
   path_cost (edge_density (town_jam 0)) [1, 4, 5, 3] = 4 * (1 + 0 ^ 3) \<and>
   path_cost (edge_density (town_jam 1)) [1, 4, 5, 3] = 4 * (1 + 1 ^ 3) \<and>
   path_cost (edge_density (town_jam 2)) [1, 4, 5, 3] = 4 * (1 + 2 ^ 3) \<and>
   path_cost (edge_density (town_jam 0)) [1, 4, 5, 3]
     < path_cost (edge_density (town_jam 1)) [1, 4, 5, 3] \<and>
   path_cost (edge_density (town_jam 1)) [1, 4, 5, 3]
     < path_cost (edge_density (town_jam 2)) [1, 4, 5, 3]"
proof -
  let ?b = "build_abstract_graph dijkstra_nx town_graph_sys False (town_jam 1)"
  have none: "False \<or> G_abs_cached (town_jam 1) = None
      \<or> last_edge_density_snapshot (town_jam 1) \<noteq> edge_density (town_jam 1)"
    by (simp add: town_jam_build(2))
  have run: "?b = (fst ?b, snd ?b)" by simp
  note inst = rebuild_weight_formula [OF none run]
  have conn: "(1, 3) \<in> set (connections town_graph_sys)"
    by (simp add: town_graph_sys_def)
  have key: "sorted_pair 1 3 = (1, 3)" by (simp add: sorted_pair_def)
  have ne: "[1, 4, 5, 3 :: int] \<noteq> []" by simp
  from inst conn town_jam_build(1) key ne
  have "edge_weight (fst ?b) 1 3
      = Some (int (length [1, 4, 5, 3 :: int])
              * (1 + summed_density (edge_density (town_jam 1)) [1, 4, 5, 3] ^ 3))"
    by metis
  from this [unfolded town_jam_build(4)]
  have a: "edge_weight (fst ?b) 1 3 = Some (4 * (1 + 1 ^ 3))"
    by simp
  from inst have formula: "path_cost d [1, 4, 5, 3]
      = int (length [1, 4, 5, 3 :: int]) * (1 + summed_density d [1, 4, 5, 3] ^ 3)" for d
    by blast
  have c0: "path_cost (edge_density (town_jam 0)) [1, 4, 5, 3] = 4 * (1 + 0 ^ 3)"
    and c1: "path_cost (edge_density (town_jam 1)) [1, 4, 5, 3] = 4 * (1 + 1 ^ 3)"
    and c2: "path_cost (edge_density (town_jam 2)) [1, 4, 5, 3] = 4 * (1 + 2 ^ 3)"
    unfolding formula town_jam_build(3,4,5) by simp_all
  from inst ne town_jam_build(3,4,5)
  have b: "path_cost (edge_density (town_jam 0)) [1, 4, 5, 3]
     < path_cost (edge_density (town_jam 1)) [1, 4, 5, 3]"
    and c: "path_cost (edge_density (town_jam 1)) [1, 4, 5, 3]
     < path_cost (edge_density (town_jam 2)) [1, 4, 5, 3]"
    by (metis zero_less_one one_less_numeral_iff semiring_norm(76))+
  from a c0 c1 c2 b c show ?thesis by blast
qed

text \<open>
  Claim C1, as stated, fails in its second half. The town is built once without traffic;
  then one vehicle is counted on the spur 4 - 6, which lies on none of the three physical
  paths. The density map has changed and the next build does rebuild (its snapshot is the
  new map), yet the rebuilt graph has the same edges and weights as before.
\<close>

theorem density_change_counterexample:
  "edge_density town_built \<noteq> spur_density \<and>
   last_edge_density_snapshot
     (snd (build_abstract_graph dijkstra_nx town_graph_sys False
        (town_built\<lparr>edge_density := spur_density\<rparr>))) = spur_density \<and>
   fst (build_abstract_graph dijkstra_nx town_graph_sys False
        (town_built\<lparr>edge_density := spur_density\<rparr>))
     = fst (build_abstract_graph dijkstra_nx town_graph_sys False town_map)"
  by code_simp

text \<open>
  Claim C1, amended. An unforced build that finds the snapshot equal to the current density
  map and a cached graph returns that graph and leaves the engine as it is; so a build
  directly after any build returns the same graph. After a rebuild, a change of the density
  map makes the next build rebuild: the engine takes the new graph and the new map as
  snapshot and keeps its path cache, the new graph has exactly the edges of the old one,
  each edge weighs \<open>n * (1 + d ^ 3)\<close> for its cached path under the old and under the new
  densities, and so its weight is unchanged exactly when the density summed along that
  path is. Hence a change that alters the sum along no cached path leaves every weight as
  it was.
\<close>

theorem snapshot_reuse:
  "(\<not> force \<and> last_edge_density_snapshot m = edge_density m \<and> G_abs_cached m = Some G
      \<longrightarrow> build_abstract_graph nx gs force m = (G, m)) \<and>
   (build_abstract_graph nx gs force m = (G1, m1)
      \<longrightarrow> build_abstract_graph nx gs False m1 = (G1, m1)) \<and>
   ((force \<or> G_abs_cached m = None \<or> last_edge_density_snapshot m \<noteq> edge_density m) \<and>
    build_abstract_graph nx gs force m = (G1, m1) \<and> dens \<noteq> edge_density m \<and>
    build_abstract_graph nx gs False (m1\<lparr>edge_density := dens\<rparr>) = (G2, m2)
      \<longrightarrow> m2 = m1\<lparr>edge_density := dens, G_abs_cached := Some G2,
                    last_edge_density_snapshot := dens\<rparr> \<and>
          (\<forall>u v. (edge_weight G2 u v = None \<longleftrightarrow> edge_weight G1 u v = None) \<and>
             (\<forall>w1. edge_weight G1 u v = Some w1 \<longrightarrow>
                (\<exists>p. Mapping.lookup (phys_path_cache m1) (sorted_pair u v) = Some p \<and> p \<noteq> [] \<and>
                     w1 = int (length p) * (1 + summed_density (edge_density m) p ^ 3) \<and>
                     edge_weight G2 u v
                       = Some (int (length p) * (1 + summed_density dens p ^ 3)) \<and>
                     (edge_weight G2 u v = Some w1 \<longleftrightarrow>
                        summed_density dens p = summed_density (edge_density m) p)))) \<and>
          ((\<forall>u v p. Mapping.lookup (phys_path_cache m1) (sorted_pair u v) = Some p \<longrightarrow>
                summed_density dens p = summed_density (edge_density m) p)
             \<longrightarrow> (\<forall>u v. edge_weight G2 u v = edge_weight G1 u v)))"
proof (intro conjI impI)
  assume "\<not> force \<and> last_edge_density_snapshot m = edge_density m \<and> G_abs_cached m = Some G"
  then show "build_abstract_graph nx gs force m = (G, m)"
    by (simp add: build_cached)
next
  assume b: "build_abstract_graph nx gs force m = (G1, m1)"
  from build_then_cached [OF b] show "build_abstract_graph nx gs False m1 = (G1, m1)"
    by (simp add: build_cached)
next
  assume h: "(force \<or> G_abs_cached m = None \<or> last_edge_density_snapshot m \<noteq> edge_density m) \<and>
    build_abstract_graph nx gs force m = (G1, m1) \<and> dens \<noteq> edge_density m \<and>
    build_abstract_graph nx gs False (m1\<lparr>edge_density := dens\<rparr>) = (G2, m2)"
  then have cond: "force \<or> G_abs_cached m = None \<or> last_edge_density_snapshot m \<noteq> edge_density m"
    and b1: "build_abstract_graph nx gs force m = (G1, m1)"
    and changed: "dens \<noteq> edge_density m"
    and b2: "build_abstract_graph nx gs False (m1\<lparr>edge_density := dens\<rparr>) = (G2, m2)"
    by simp_all
  let ?m1' = "m1\<lparr>edge_density := dens\<rparr>"
  note after1 = build_then_cached [OF b1]
  have cond2: "False \<or> G_abs_cached ?m1' = None
      \<or> last_edge_density_snapshot ?m1' \<noteq> edge_density ?m1'"
    using after1 changed by auto
  from build_rebuilds [OF cond b1] obtain m0 where
    loop1: "build_loop nx (connections gs) [] m = (G1, m0)"
    and m1: "m1 = m0\<lparr>G_abs_cached := Some G1, last_edge_density_snapshot := edge_density m0\<rparr>"
    by blast
  from build_rebuilds [OF cond2 b2] obtain m0' where
    loop2: "build_loop nx (connections gs) [] ?m1' = (G2, m0')"
    and m2: "m2 = m0'\<lparr>G_abs_cached := Some G2, last_edge_density_snapshot := edge_density m0'\<rparr>"
    by blast
  have shape: "?m1' = m0\<lparr>G_abs_cached := Some G1,
      last_edge_density_snapshot := edge_density m0, edge_density := dens\<rparr>"
    using m1 by simp
  note twice = rebuild_twice [OF loop1 shape loop2]
  have cache: "phys_path_cache m1 = phys_path_cache m0"
    using m1 by simp
  from twice(1) m2 show m2_eq: "m2 = m1\<lparr>edge_density := dens, G_abs_cached := Some G2,
                    last_edge_density_snapshot := dens\<rparr>"
    by simp
  show pairs: "\<forall>u v. (edge_weight G2 u v = None \<longleftrightarrow> edge_weight G1 u v = None) \<and>
             (\<forall>w1. edge_weight G1 u v = Some w1 \<longrightarrow>
                (\<exists>p. Mapping.lookup (phys_path_cache m1) (sorted_pair u v) = Some p \<and> p \<noteq> [] \<and>
                     w1 = int (length p) * (1 + summed_density (edge_density m) p ^ 3) \<and>
                     edge_weight G2 u v
                       = Some (int (length p) * (1 + summed_density dens p ^ 3)) \<and>
                     (edge_weight G2 u v = Some w1 \<longleftrightarrow>
                        summed_density dens p = summed_density (edge_density m) p)))"
  proof (intro allI conjI impI)
    fix u v
    show "edge_weight G2 u v = None \<longleftrightarrow> edge_weight G1 u v = None"
      by (rule twice(2))
  next
    fix u v w1
    assume "edge_weight G1 u v = Some w1"
    from twice(3) [OF this] obtain p where
      p: "Mapping.lookup (phys_path_cache m0) (sorted_pair u v) = Some p" "p \<noteq> []"
         "w1 = path_cost (edge_density m) p" "edge_weight G2 u v = Some (path_cost dens p)"
      by blast
    have "edge_weight G2 u v = Some w1 \<longleftrightarrow>
        summed_density dens p = summed_density (edge_density m) p"
      using p(3,4) summed_cost_eq_iff [OF p(2), of dens "edge_density m"] by auto
    with p show "\<exists>p. Mapping.lookup (phys_path_cache m1) (sorted_pair u v) = Some p \<and> p \<noteq> [] \<and>
                     w1 = int (length p) * (1 + summed_density (edge_density m) p ^ 3) \<and>
                     edge_weight G2 u v
                       = Some (int (length p) * (1 + summed_density dens p ^ 3)) \<and>
                     (edge_weight G2 u v = Some w1 \<longleftrightarrow>
                        summed_density dens p = summed_density (edge_density m) p)"
      unfolding cache path_cost_summed by blast
  qed
  show "\<forall>u v. edge_weight G2 u v = edge_weight G1 u v"
    if same: "\<forall>u v p. Mapping.lookup (phys_path_cache m1) (sorted_pair u v) = Some p \<longrightarrow>
                summed_density dens p = summed_density (edge_density m) p"
  proof (intro allI)
    fix u v
    show "edge_weight G2 u v = edge_weight G1 u v"
    proof (cases "edge_weight G1 u v")
      case None
      with pairs show ?thesis by simp
    next
      case (Some w1)
      with pairs obtain p where
        "Mapping.lookup (phys_path_cache m1) (sorted_pair u v) = Some p"
        "edge_weight G2 u v = Some w1 \<longleftrightarrow>
           summed_density dens p = summed_density (edge_density m) p"
        by blast
      with same Some show ?thesis by auto
    qed
  qed
qed

text \<open>
  In the town: a second build returns the first graph; one vehicle on the street between
  5 and 3 raises the weight of the edge from 1 to 3 from 4 to 8; one vehicle on the spur
  changes no sum along a cached path and leaves that weight at 4.
\<close>

lemma town_rebuild_facts:
  "G_abs_cached town_map = None"
  "G_abs_cached town_built = Some (fst (build_abstract_graph dijkstra_nx town_graph_sys False town_map))"
  "last_edge_density_snapshot town_built = edge_density town_built"
  "edge_density (town_jam 1) \<noteq> edge_density town_map"
  "edge_weight (fst (build_abstract_graph dijkstra_nx town_graph_sys False town_map)) 1 3 = Some 4"
  "Mapping.lookup (phys_path_cache town_built) (sorted_pair 1 3) = Some [1, 4, 5, 3]"
  "summed_density (edge_density town_map) [1, 4, 5, 3] = 0"
  "summed_density (edge_density (town_jam 1)) [1, 4, 5, 3] = 1"
  by code_simp+

lemma town_spur_facts:
  "phys_path_cache town_built
     = Mapping.of_alist [((1, 2), [1, 2]), ((1, 3), [1, 4, 5, 3]), ((2, 3), [2, 3])]"
  "summed_density spur_density [1, 2] = summed_density (edge_density town_map) [1, 2]"
  "summed_density spur_density [1, 4, 5, 3] = summed_density (edge_density town_map) [1, 4, 5, 3]"
  "summed_density spur_density [2, 3] = summed_density (edge_density town_map) [2, 3]"
  "spur_density \<noteq> edge_density town_map"
  by code_simp+

lemma town_spur_sums:
  "\<forall>u v p. Mapping.lookup (phys_path_cache town_built) (sorted_pair u v) = Some p \<longrightarrow>
     summed_density spur_density p = summed_density (edge_density town_map) p"
  unfolding town_spur_facts(1)
  by (auto simp: Mapping.lookup_of_alist town_spur_facts(2,3,4) split: if_splits)

theorem snapshot_reuse_witness:
  "build_abstract_graph dijkstra_nx town_graph_sys False town_built =
     (fst (build_abstract_graph dijkstra_nx town_graph_sys False town_map), town_built) \<and>
   last_edge_density_snapshot
     (snd (build_abstract_graph dijkstra_nx town_graph_sys False
        (town_built\<lparr>edge_density := edge_density (town_jam 1)\<rparr>))) = edge_density (town_jam 1) \<and>
   edge_weight (fst (build_abstract_graph dijkstra_nx town_graph_sys False town_map)) 1 3
     = Some (4 * (1 + 0 ^ 3)) \<and>
   edge_weight
     (fst (build_abstract_graph dijkstra_nx town_graph_sys False
        (town_built\<lparr>edge_density := edge_density (town_jam 1)\<rparr>))) 1 3
     = Some (4 * (1 + 1 ^ 3)) \<and>
   edge_weight
     (fst (build_abstract_graph dijkstra_nx town_graph_sys False
        (town_built\<lparr>edge_density := spur_density\<rparr>))) 1 3
     = Some 4"
proof -
  let ?G1 = "fst (build_abstract_graph dijkstra_nx town_graph_sys False town_map)"
  let ?dens = "edge_density (town_jam 1)"
  let ?b2 = "build_abstract_graph dijkstra_nx town_graph_sys False
               (town_built\<lparr>edge_density := ?dens\<rparr>)"
  let ?b3 = "build_abstract_graph dijkstra_nx town_graph_sys False
               (town_built\<lparr>edge_density := spur_density\<rparr>)"
  have b1: "build_abstract_graph dijkstra_nx town_graph_sys False town_map = (?G1, town_built)"
    by (simp add: town_built_def)
  have b2: "?b2 = (fst ?b2, snd ?b2)" and b3: "?b3 = (fst ?b3, snd ?b3)" by simp_all
  have again: "build_abstract_graph dijkstra_nx town_graph_sys False town_built = (?G1, town_built)"
    using snapshot_reuse [of False town_built ?G1 dijkstra_nx town_graph_sys]
      town_rebuild_facts(2,3) by blast
  note third = snapshot_reuse [of False town_map ?G1 dijkstra_nx town_graph_sys ?G1 town_built
      ?dens "fst ?b2" "snd ?b2"]
  from third town_rebuild_facts(1,4) b1 b2
  have m2: "snd ?b2 = town_built\<lparr>edge_density := ?dens, G_abs_cached := Some (fst ?b2),
                    last_edge_density_snapshot := ?dens\<rparr>"
    and weights: "\<forall>w1. edge_weight ?G1 1 3 = Some w1 \<longrightarrow>
       (\<exists>p. Mapping.lookup (phys_path_cache town_built) (sorted_pair 1 3) = Some p \<and> p \<noteq> [] \<and>
            w1 = int (length p) * (1 + summed_density (edge_density town_map) p ^ 3) \<and>
            edge_weight (fst ?b2) 1 3 = Some (int (length p) * (1 + summed_density ?dens p ^ 3)) \<and>
            (edge_weight (fst ?b2) 1 3 = Some w1 \<longleftrightarrow>
               summed_density ?dens p = summed_density (edge_density town_map) p))"
    by blast+
  from m2 have snap: "last_edge_density_snapshot (snd ?b2) = ?dens"
    by (metis MapEngine.select_convs(7) MapEngine.surjective MapEngine.update_convs(7))
  from weights town_rebuild_facts(5,6)
  have "edge_weight ?G1 1 3
          = Some (int (length [1, 4, 5, 3 :: int])
                  * (1 + summed_density (edge_density town_map) [1, 4, 5, 3] ^ 3))"
    and "edge_weight (fst ?b2) 1 3
          = Some (int (length [1, 4, 5, 3 :: int]) * (1 + summed_density ?dens [1, 4, 5, 3] ^ 3))"
    by auto
  from this [unfolded town_rebuild_facts(7,8)]
  have jam: "edge_weight ?G1 1 3 = Some (4 * (1 + 0 ^ 3))"
    "edge_weight (fst ?b2) 1 3 = Some (4 * (1 + 1 ^ 3))"
    by simp_all
  note spur = snapshot_reuse [of False town_map ?G1 dijkstra_nx town_graph_sys ?G1 town_built
      spur_density "fst ?b3" "snd ?b3"]
  from spur town_rebuild_facts(1) town_spur_facts(5) b1 b3 town_spur_sums
  have "\<forall>u v. edge_weight (fst ?b3) u v = edge_weight ?G1 u v"
    by blast
  with town_rebuild_facts(5) have "edge_weight (fst ?b3) 1 3 = Some 4"
    by simp
  with again snap jam show ?thesis by blast
qed

subsection \<open>The mission: planning and the end of a leg\<close>

text \<open>
  Claim C6, as stated, fails where it says the mission ends up in \<^verbatim>\<open>IDLE\<close>. A vehicle
  whose state is \<^verbatim>\<open>WAITING\<close> and whose current node no abstract edge reaches is planned:
  both builds miss the node, the alert becomes \<open>''No Route!''\<close> and the flag is cleared,
  and the state is still \<^verbatim>\<open>WAITING\<close>.
\<close>

theorem no_route_keeps_state_counterexample:
  "state (town_lost\<lparr>state := WAITING\<rparr>) = WAITING \<and>
   calculate_mission_and_go dijkstra_nx (town_lost\<lparr>state := WAITING\<rparr>) =
     town_lost\<lparr>state := WAITING, map_eng := town_built, alert := ''No Route!'', active := False\<rparr> \<and>
   state (calculate_mission_and_go dijkstra_nx (town_lost\<lparr>state := WAITING\<rparr>)) \<noteq> IDLE"
  by code_simp

text \<open>
  Claim C6, amended. \<^verbatim>\<open>calculate_mission_and_go\<close> first builds without force. If the
  current node or the destination is missing from that graph it builds once more, with
  force, on the engine the first build left; if one of them is still missing, the vehicle
  comes back with the engine of the forced build, the alert \<open>''No Route!''\<close> and the active
  flag off, and with every other attribute, the \<^verbatim>\<open>state\<close> string among them, as before.
  The result is a value: nothing is raised.
\<close>

theorem plan_no_route:
  assumes "build_abstract_graph nx (graph_sys (map_eng a)) False (map_eng a) = (G0, m0)"
    and "\<not> has_node G0 (current_node a) \<or> \<not> has_node G0 (final_dest a)"
    and "build_abstract_graph nx (graph_sys (map_eng a)) True m0 = (G1, m1)"
    and "\<not> has_node G1 (current_node a) \<or> \<not> has_node G1 (final_dest a)"
  shows "calculate_mission_and_go nx a = a\<lparr>map_eng := m1, alert := ''No Route!'', active := False\<rparr> \<and>
         alert (calculate_mission_and_go nx a) = ''No Route!'' \<and>
         \<not> active (calculate_mission_and_go nx a) \<and>
         state (calculate_mission_and_go nx a) = state a"
proof -
  have "calculate_mission_and_go nx a
      = a\<lparr>map_eng := m1, alert := ''No Route!'', active := False\<rparr>"
    using assms by (simp add: calculate_mission_and_go_def no_route_def)
  then show ?thesis by simp
qed

text \<open>
  A vehicle sent from intersection 6, which no abstract edge reaches: both builds miss it.
\<close>

lemma town_lost_facts:
  "\<not> has_node (fst (build_abstract_graph dijkstra_nx (graph_sys (map_eng town_lost)) False
       (map_eng town_lost))) (current_node town_lost)"
  "\<not> has_node (fst (build_abstract_graph dijkstra_nx (graph_sys (map_eng town_lost)) True
       (snd (build_abstract_graph dijkstra_nx (graph_sys (map_eng town_lost)) False
          (map_eng town_lost))))) (current_node town_lost)"
  "snd (build_abstract_graph dijkstra_nx (graph_sys (map_eng town_lost)) True
       (snd (build_abstract_graph dijkstra_nx (graph_sys (map_eng town_lost)) False
          (map_eng town_lost)))) = town_built"
  "state town_lost = IDLE"
  by code_simp+

theorem plan_no_route_witness:
  "calculate_mission_and_go dijkstra_nx town_lost =
     town_lost\<lparr>map_eng := town_built, alert := ''No Route!'', active := False\<rparr> \<and>
   state (calculate_mission_and_go dijkstra_nx town_lost) = IDLE"
proof -
  let ?gs = "graph_sys (map_eng town_lost)"
  let ?b0 = "build_abstract_graph dijkstra_nx ?gs False (map_eng town_lost)"
  let ?b1 = "build_abstract_graph dijkstra_nx ?gs True (snd ?b0)"
  have b0: "?b0 = (fst ?b0, snd ?b0)" and b1: "?b1 = (fst ?b1, snd ?b1)" by simp_all
  have a0: "\<not> has_node (fst ?b0) (current_node town_lost)
      \<or> \<not> has_node (fst ?b0) (final_dest town_lost)"
    using town_lost_facts(1) by blast
  have a1: "\<not> has_node (fst ?b1) (current_node town_lost)
      \<or> \<not> has_node (fst ?b1) (final_dest town_lost)"
    using town_lost_facts(2) by blast
  from plan_no_route [OF b0 a0 b1 a1] town_lost_facts(3,4) show ?thesis by simp
qed











subsection \<open>Where the code departs from its description\<close>

text \<open>
  After a toggle the cache is empty, so the next query is answered by the library from
  \<^verbatim>\<open>G_proj\<close>, which the toggle has not touched: the list of blocked edges plays no part.
\<close>

lemma block_at_ignored_by_query:
  "fst (get_phys_path nx u v (block_at (Some e) m)) = road_shortest_path nx (G_proj m) u v"
  by (simp add: get_phys_path_def block_at_def invalidate_phys_cache_def split: option.splits)

text \<open>
  Claim C2 evaluated on the code. In the town the path cached for \<open>(1, 2)\<close> is the street
  \<open>[1, 2]\<close>. Blocking that street empties the cache and records the edge as blocked.
  The route \<open>[1, 4, 5, 3, 2]\<close> avoids the street, yet the next query returns \<open>[1, 2]\<close>
  again. And after blocking the spur 4 - 6, the only street of intersection 6, the query
  from 4 to 6 still returns the spur instead of failing.
\<close>

theorem blocked_edge_still_routed:
  "get_phys_path dijkstra_nx 1 2 town_map =
     (Some [1, 2], town_map\<lparr>phys_path_cache := Mapping.update (1, 2) [1, 2] Mapping.empty\<rparr>) \<and>
   on_path (1, 2, 0) [1, 2] \<and>
   block_at (Some (1, 2, 0))
       (town_map\<lparr>phys_path_cache := Mapping.update (1, 2) [1, 2] Mapping.empty\<rparr>) =
     town_map\<lparr>blocked_edges := [(1, 2, 0)]\<rparr> \<and>
   is_route town_roads [1, 4, 5, 3, 2] \<and> \<not> on_path (1, 2, 0) [1, 4, 5, 3, 2] \<and>
   fst (get_phys_path dijkstra_nx 1 2 (town_map\<lparr>blocked_edges := [(1, 2, 0)]\<rparr>)) = Some [1, 2] \<and>
   neighbors town_roads 6 = [(4, 1)] \<and>
   fst (get_phys_path dijkstra_nx 4 6 (block_at (Some (4, 6, 0)) town_map)) = Some [4, 6]"
  by code_simp

text \<open>
  The hop decision compares the best neighbour with the base hop by identity only: whatever
  the totals are, a best neighbour other than the base hop is taken as soon as a physical
  path and an abstract tail exist for it.
\<close>

lemma pick_hop_ignores_totals:
  assumes "best_neighbor \<noteq> raw_proj ! 1"
    and "get_phys_path nx cur best_neighbor m = (Some phys_nodes, m')" and "phys_nodes \<noteq> []"
    and "abs_shortest_path nx G_abs best_neighbor fin = Some tail"
  shows "pick_hop nx G_abs cur fin raw_proj (Some (best_total, best_neighbor)) m =
           ((best_neighbor, cur # tail, True), m')"
  using assms by (simp add: pick_hop_def)

text \<open>
  Claim C3 evaluated on the code. In the town without traffic the abstract graph has the
  edges 1 - 2 and 2 - 3 of weight 2 and 1 - 3 of weight 4. The base path from 1 to 3 is
  \<open>[1, 3]\<close>; its second node 3 has the lookahead total 4 + 0, the other neighbour 2 has the
  equal total 2 + 2. The loop keeps the first neighbour that reaches the minimum, which is
  2, and since it differs from the base hop \<^verbatim>\<open>start\<close> commits the vehicle to 2 and
  projects \<open>[1, 2, 3]\<close>. On the same tie \<^verbatim>\<open>check_dynamic_reroute\<close> reports a switch.
\<close>

theorem tie_switches_hop:
  "fst (build_abstract_graph dijkstra_nx town_graph_sys False town_map) = town_G \<and>
   abs_shortest_path dijkstra_nx town_G 1 3 = Some [1, 3] \<and>
   neighbors town_G 1 = [(2, 2), (3, 4)] \<and>
   lookahead dijkstra_nx town_G 3 [(3, 4)] None = Some (Fin 4, 3) \<and>
   lookahead dijkstra_nx town_G 3 [(2, 2)] None = Some (Fin 4, 2) \<and>
   lookahead dijkstra_nx town_G 3 (neighbors town_G 1) None = Some (Fin 4, 2) \<and>
   start dijkstra_nx [1, 3] town_av = Inr town_departed \<and>
   next_node_target town_departed = Some 2 \<and>
   projected_path town_departed = [1, 2, 3] \<and>
   check_dynamic_reroute dijkstra_nx town_departed =
     (Inr True,
      town_departed\<lparr>projected_path := [1, 3], alert := ''Rerouted -> B (mid-leg)''\<rparr>)"
  by code_simp

end
